theory Spec2Isabelle
  imports Complex_Main "HOL-Library.AList"
begin

section \<open>Numbers, failures and the library primitives\<close>

text \<open>
  The structures are computed by \<^verbatim>\<open>crystcif-parse/lib/cryst.js\<close>. JavaScript numbers are
  modelled by the reals: every arithmetic operation is exact. A run in which JavaScript
  would produce a NaN or an infinity (a square root of a negative number, a division by
  zero) is not followed further: the model returns \<open>OutsideModel\<close> there. The other
  constructors of \<open>error\<close> are the exceptions of the program.
\<close>

type_synonym vec = "real list"
type_synonym mat = "real list list"

text \<open>An entry of the \<^verbatim>\<open>elems\<close> array: a number, a string, or \<^verbatim>\<open>undefined\<close>.\<close>

datatype elem = ENum real | EStr string | EUndef

datatype error =
    NonExistingElement elem  \<comment> \<open>\<^verbatim>\<open>Error('Non-existing element "..." passed to Atoms')\<close>\<close>
  | InvalidCell  \<comment> \<open>\<^verbatim>\<open>Error('Invalid cell passed to set_cell')\<close>\<close>
  | InvalidPositions  \<comment> \<open>\<^verbatim>\<open>Error('Invalid positions array passed to Atoms')\<close>\<close>
  | ScaledNonPeriodic  \<comment> \<open>\<^verbatim>\<open>Error('Impossible to use scaled coordinates with non-periodic system')\<close>\<close>
  | InvalidArraySize  \<comment> \<open>\<^verbatim>\<open>Error('Invalid array size')\<close>\<close>
  | AbsoluteCoordinatesNeeded  \<comment> \<open>\<^verbatim>\<open>Error('Absolute coordinates are necessary without a unit cell')\<close>\<close>
  | MathError  \<comment> \<open>an exception of mathjs: singular matrix, mismatched dimensions\<close>
  | TypeError  \<comment> \<open>a property read on \<^verbatim>\<open>null\<close> or \<^verbatim>\<open>undefined\<close>, a call of a non-function\<close>
  | OutsideModel  \<comment> \<open>no exception: a NaN or an infinity arises, which the reals do not hold\<close>

definition and_then :: "error + 'a \<Rightarrow> ('a \<Rightarrow> error + 'b) \<Rightarrow> error + 'b" where
  "and_then r f = (case r of Inl e \<Rightarrow> Inl e | Inr x \<Rightarrow> f x)"

fun all_ok :: "(error + 'a) list \<Rightarrow> error + 'a list" where
  "all_ok [] = Inr []"
| "all_ok (r # rs) = and_then r (\<lambda>x. and_then (all_ok rs) (\<lambda>xs. Inr (x # xs)))"

subsection \<open>mathjs\<close>

text \<open>
  \<^verbatim>\<open>mjs.norm\<close> of a vector is its Euclidean norm; \<^verbatim>\<open>mjs.dot\<close>, \<^verbatim>\<open>mjs.add\<close>
  and \<^verbatim>\<open>mjs.subtract\<close> raise on vectors of different lengths; \<^verbatim>\<open>mjs.multiply\<close>
  raises when the inner dimensions differ; \<^verbatim>\<open>mjs.inv\<close> raises on a singular matrix.
  Only the shapes the program passes are modelled: vectors, and matrices with three
  columns.
\<close>

definition mjs_norm :: "vec \<Rightarrow> real" where
  "mjs_norm v = sqrt (sum_list (map (\<lambda>x. x * x) v))"

definition mjs_dot :: "vec \<Rightarrow> vec \<Rightarrow> error + real" where
  "mjs_dot a b =
     (if length a \<noteq> length b \<or> a = [] then Inl MathError
      else Inr (sum_list (map2 (\<lambda>x y. x * y) a b)))"

definition mjs_add :: "vec \<Rightarrow> vec \<Rightarrow> error + vec" where
  "mjs_add a b = (if length a \<noteq> length b then Inl MathError else Inr (map2 (\<lambda>x y. x + y) a b))"

definition mjs_subtract :: "vec \<Rightarrow> vec \<Rightarrow> error + vec" where
  "mjs_subtract a b =
     (if length a \<noteq> length b then Inl MathError else Inr (map2 (\<lambda>x y. x - y) a b))"

definition mjs_dotMultiply :: "real \<Rightarrow> vec \<Rightarrow> vec" where
  "mjs_dotMultiply c v = map (\<lambda>x. c * x) v"

text \<open>A row vector times a matrix of three rows: \<^verbatim>\<open>mjs.multiply(p, cell)\<close>.\<close>

definition mjs_multiply_vm :: "vec \<Rightarrow> mat \<Rightarrow> error + vec" where
  "mjs_multiply_vm p m =
     (case (p, m) of
        ([p0, p1, p2], [[a0, a1, a2], [b0, b1, b2], [c0, c1, c2]]) \<Rightarrow>
          Inr [p0 * a0 + p1 * b0 + p2 * c0,
               p0 * a1 + p1 * b1 + p2 * c1,
               p0 * a2 + p1 * b2 + p2 * c2]
      | _ \<Rightarrow> Inl MathError)"

text \<open>
  A matrix of rows times a matrix: \<^verbatim>\<open>mjs.multiply(positions, cell)\<close>. An empty array has
  size \<open>[0]\<close>, a vector of no entries, which mathjs refuses to multiply by three rows.
\<close>

definition mjs_multiply_mm :: "mat \<Rightarrow> mat \<Rightarrow> error + mat" where
  "mjs_multiply_mm ps m =
     (if ps = [] then Inl MathError else all_ok (map (\<lambda>p. mjs_multiply_vm p m) ps))"

text \<open>A matrix of three rows times a column vector: \<^verbatim>\<open>mjs.multiply(rot, p0)\<close>.\<close>

definition mjs_multiply_mv :: "mat \<Rightarrow> vec \<Rightarrow> error + vec" where
  "mjs_multiply_mv m p =
     (case (m, p) of
        ([[a0, a1, a2], [b0, b1, b2], [c0, c1, c2]], [p0, p1, p2]) \<Rightarrow>
          Inr [a0 * p0 + a1 * p1 + a2 * p2,
               b0 * p0 + b1 * p1 + b2 * p2,
               c0 * p0 + c1 * p1 + c2 * p2]
      | _ \<Rightarrow> Inl MathError)"

definition det3 :: "mat \<Rightarrow> real" where
  "det3 m =
     (case m of
        [[a, b, c], [d, e, f], [g, h, i]] \<Rightarrow>
          a * (e * i - f * h) - b * (d * i - f * g) + c * (d * h - e * g)
      | _ \<Rightarrow> 0)"

text \<open>
  \<^verbatim>\<open>mjs.inv\<close> on a matrix of three rows and three columns: the inverse, where the
  determinant is not zero (mathjs eliminates with pivoting and raises when a pivot is
  zero).
\<close>

definition mjs_inv :: "mat \<Rightarrow> error + mat" where
  "mjs_inv m =
     (case m of
        [[a, b, c], [d, e, f], [g, h, i]] \<Rightarrow>
          (if det3 m = 0 then Inl MathError
           else Inr [[(e * i - f * h) / det3 m, (c * h - b * i) / det3 m, (b * f - c * e) / det3 m],
                     [(f * g - d * i) / det3 m, (a * i - c * g) / det3 m, (c * d - a * f) / det3 m],
                     [(d * h - e * g) / det3 m, (b * g - a * h) / det3 m, (a * e - b * d) / det3 m]])
      | _ \<Rightarrow> Inl MathError)"

subsection \<open>The helpers of utils.js\<close>

text \<open>
  \<^verbatim>\<open>lib/utils.js\<close> is not among the sources. Its helpers are modelled from the use the
  program makes of them and from the words of the specification.
\<close>

text \<open>Modelled from the spec: \<^verbatim>\<open>utils.cross\<close>, the cross product of two vectors of three
  components (\<open>Y = Z \<times> X\<close>). Other shapes leave the model.\<close>

definition utils_cross :: "vec \<Rightarrow> vec \<Rightarrow> error + vec" where
  "utils_cross a b =
     (case (a, b) of
        ([a0, a1, a2], [b0, b1, b2]) \<Rightarrow>
          Inr [a1 * b2 - a2 * b1, a2 * b0 - a0 * b2, a0 * b1 - a1 * b0]
      | _ \<Rightarrow> Inl OutsideModel)"

text \<open>Modelled from the spec: \<^verbatim>\<open>utils.unit\<close>, the vector divided by its norm
  (\<open>Z = unit(abNormal)\<close>). The zero vector has no direction: the quotient is a NaN.\<close>

definition utils_unit :: "vec \<Rightarrow> error + vec" where
  "utils_unit v = (if mjs_norm v = 0 then Inl OutsideModel else Inr (map (\<lambda>x. x / mjs_norm v) v))"

text \<open>Modelled from the spec: \<^verbatim>\<open>utils.degToRad\<close>, the conversion of degrees to
  radians (\<open>angles converted to radians\<close>).\<close>

definition utils_degToRad :: "real \<Rightarrow> real" where
  "utils_degToRad d = d * pi / 180"


section \<open>Cell geometry\<close>



text \<open>
  The default of \<^verbatim>\<open>a_direction\<close> (lines 57 to 63 of \<^verbatim>\<open>cellparToCell\<close>), taken when the
  caller gives none.
\<close>

definition default_a_direction :: "vec \<Rightarrow> error + vec" where
  "default_a_direction ab_normal =
     and_then (utils_cross ab_normal [1, 0, 0]) (\<lambda>c.
       Inr (if mjs_norm c < 1 / 10 ^ 5 then [0, 0, 1] else [1, 0, 0]))"

text \<open>
  The rounding for orthorhombic cells: a sine within \<open>1e-14\<close> of \<open>\<plusminus>1\<close> becomes its
  sign, and the cosine zero. The result is the pair (cosine, sine).
\<close>

definition snap :: "real \<Rightarrow> real \<times> real" where
  "snap a = (if \<bar>\<bar>sin a\<bar> - 1\<bar> < 1 / 10 ^ 14 then (0, sgn (sin a)) else (cos a, sin a))"

text \<open>
  The rotated system of \<^verbatim>\<open>cellparToCell\<close> (lines 65 to 70): \<open>Z\<close> along
  \<^verbatim>\<open>ab_normal\<close>, \<open>X\<close> along the projection of \<^verbatim>\<open>a_direction\<close> on the plane normal
  to \<open>Z\<close>. The result is \<open>[X, Y, Z]\<close>.
\<close>

definition rotated_system :: "vec \<Rightarrow> vec \<Rightarrow> error + mat" where
  "rotated_system ab_normal a_direction =
     and_then (utils_unit a_direction) (\<lambda>ad.
     and_then (utils_unit ab_normal) (\<lambda>Z.
     and_then (mjs_dot ad Z) (\<lambda>d.
     and_then (mjs_subtract ad (mjs_dotMultiply d Z)) (\<lambda>s.
     and_then (utils_unit s) (\<lambda>X.
     and_then (utils_cross Z X) (\<lambda>Y. Inr [X, Y, Z]))))))"

text \<open>
  The cell vectors in the rotated system (lines 72 to 98), from the lengths and the
  angles in radians: \<open>[va, vb, vc]\<close>. With fewer than three lengths or angles a component
  is a NaN; so it is when \<open>sina[2]\<close> is zero or the radicand of \<open>vc[2]\<close> is negative.
\<close>

definition cell_vectors :: "vec \<Rightarrow> vec \<Rightarrow> error + mat" where
  "cell_vectors l angs =
     (if length l < 3 \<or> length angs < 3 then Inl OutsideModel
      else
        (let cosa = map (\<lambda>a. fst (snap a)) (take 3 angs);
             sina = map (\<lambda>a. snd (snap a)) (take 3 angs)
         in
         if sina ! 2 = 0 then Inl OutsideModel
         else
           (let va = [l ! 0, 0, 0];
                vb = [l ! 1 * cosa ! 2, l ! 1 * sina ! 2, 0];
                vc0 = l ! 2 * cosa ! 1;
                vc1 = l ! 2 * (cosa ! 0 - cosa ! 1 * cosa ! 2) / sina ! 2;
                r = l ! 2 * l ! 2 - vc0 * vc0 - vc1 * vc1
            in
            if r < 0 then Inl OutsideModel else Inr [va, vb, [vc0, vc1, sqrt r]])))"

text \<open>
  \<^verbatim>\<open>cellparToCell(cellpar, ab_normal, a_direction, radians)\<close>. An array is truthy, so an
  argument that is given is taken as it is.
\<close>

definition cellparToCell :: "vec \<times> vec \<Rightarrow> vec option \<Rightarrow> vec option \<Rightarrow> bool \<Rightarrow> error + mat" where
  "cellparToCell cellpar ab_normal0 a_direction0 radians =
     (let ab_normal = (case ab_normal0 of None \<Rightarrow> [0, 0, 1] | Some v \<Rightarrow> v) in
      and_then (case a_direction0 of None \<Rightarrow> default_a_direction ab_normal | Some v \<Rightarrow> Inr v)
        (\<lambda>a_direction.
      and_then (rotated_system ab_normal a_direction) (\<lambda>XYZ.
      and_then (cell_vectors (fst cellpar)
                  (if radians then snd cellpar else map utils_degToRad (snd cellpar))) (\<lambda>vs.
        mjs_multiply_mm vs XYZ))))"

section \<open>The structure model\<close>

text \<open>
  The periodic table is the library \<^verbatim>\<open>mendeleev\<close>, a parameter of the model:
  \<^verbatim>\<open>getAtomic\<close> looks an atomic number up, \<^verbatim>\<open>getElement\<close> whatever else stands in
  \<^verbatim>\<open>elems\<close>; each answers \<^verbatim>\<open>null\<close> (here \<open>None\<close>) for what the table does not hold.
\<close>

record element =
  symbol :: string
  number :: int

record mndtable =
  getAtomic :: "real \<Rightarrow> element option"
  getElement :: "elem \<Rightarrow> element option"

text \<open>
  One turn of the loop over \<^verbatim>\<open>elems\<close> (lines 137 to 158): the symbol and the number
  pushed for \<^verbatim>\<open>el\<close>, or the exception.
\<close>

definition lookup_species :: "mndtable \<Rightarrow> bool \<Rightarrow> elem \<Rightarrow> error + (elem \<times> int)" where
  "lookup_species tbl tolerant el =
     (let is_num = (case el of ENum _ \<Rightarrow> True | _ \<Rightarrow> False);
          a = (case el of ENum n \<Rightarrow> getAtomic tbl n | _ \<Rightarrow> getElement tbl el)
      in case a of
           None \<Rightarrow>
             if is_num \<or> \<not> tolerant then Inl (NonExistingElement el) else Inr (el, - 1)
         | Some a \<Rightarrow> Inr (EStr (symbol a), number a))"

definition species :: "mndtable \<Rightarrow> bool \<Rightarrow> elem list \<Rightarrow> error + (elem list \<times> int list)" where
  "species tbl tolerant elems =
     and_then (all_ok (map (lookup_species tbl tolerant) elems)) (\<lambda>ps.
       Inr (map fst ps, map snd ps))"

text \<open>
  The \<^verbatim>\<open>cell\<close> argument as the constructor tells its values apart: a falsy value
  (\<^verbatim>\<open>null\<close>, and the number zero), a number, or an array whose entries are \<^verbatim>\<open>null\<close>,
  numbers or arrays of numbers.
\<close>

datatype cellrow = RowNull | RowNum real | RowVec vec

datatype cellarg = CellNull | CellNum real | CellRows "cellrow list"

text \<open>\<^verbatim>\<open>x.length == 3\<close> for an entry of the cell array: \<^verbatim>\<open>null\<close> has no properties,
  a number has no length.\<close>

definition length_is_3 :: "cellrow \<Rightarrow> error + bool" where
  "length_is_3 r =
     (case r of RowNull \<Rightarrow> Inl TypeError | RowNum _ \<Rightarrow> Inr False | RowVec v \<Rightarrow> Inr (length v = 3))"

text \<open>The test of line 179 for the lengths and angles format; \<^verbatim>\<open>&&\<close> stops at the
  first false operand.\<close>

definition is_cellpar :: "cellrow list \<Rightarrow> error + bool" where
  "is_cellpar rows =
     (case rows of
        [r0, r1] \<Rightarrow>
          and_then (length_is_3 r0) (\<lambda>b0. if b0 then length_is_3 r1 else Inr False)
      | _ \<Rightarrow> Inr False)"

text \<open>One turn of the loop over the three entries of the cell (lines 186 to 199): the
  row stored, \<open>None\<close> for \<^verbatim>\<open>null\<close>.\<close>

definition cell_row :: "nat \<Rightarrow> cellrow \<Rightarrow> error + vec option" where
  "cell_row i r =
     (case r of
        RowNull \<Rightarrow> Inr None
      | RowNum a \<Rightarrow> if a = 0 then Inr None else Inr (Some ([0, 0, 0][i := a]))
      | RowVec v \<Rightarrow> if length v \<noteq> 3 then Inl InvalidCell else Inr (Some v))"

text \<open>Lines 167 to 200: the stored cell (\<open>None\<close> for \<^verbatim>\<open>null\<close>) and the flags
  \<^verbatim>\<open>_pbc\<close>.\<close>

definition store_cell :: "cellarg \<Rightarrow> error + (vec option list option \<times> bool list)" where
  "store_cell cell =
     (case cell of
        CellNull \<Rightarrow> Inr (None, [False, False, False])
      | CellNum a \<Rightarrow>
          if a = 0 then Inr (None, [False, False, False])
          else Inr (Some [Some [a, 0, 0], Some [0, a, 0], Some [0, 0, a]], [True, True, True])
      | CellRows rows \<Rightarrow>
          and_then (is_cellpar rows) (\<lambda>cp.
            if cp then
              (case rows of
                 [RowVec l, RowVec angs] \<Rightarrow>
                   and_then (cellparToCell (l, angs) None None False) (\<lambda>c.
                     Inr (Some (map Some c), [True, True, True]))
               | _ \<Rightarrow> Inl TypeError)
            else if length rows \<noteq> 3 then Inl InvalidCell
            else
              and_then (all_ok (map (\<lambda>i. cell_row i (rows ! i)) [0, 1, 2])) (\<lambda>rs.
                Inr (Some rs, map (\<lambda>r. r \<noteq> None) rs))))"

text \<open>\<^verbatim>\<open>!cell\<close>: the argument is falsy.\<close>

definition falsy_cell :: "cellarg \<Rightarrow> bool" where
  "falsy_cell cell = (case cell of CellNull \<Rightarrow> True | CellNum a \<Rightarrow> a = 0 | CellRows _ \<Rightarrow> False)"

text \<open>Lines 202 and 203: the inverse cell, computed when the argument is truthy and
  no row of the stored cell is \<^verbatim>\<open>null\<close>.\<close>

definition invert_cell :: "cellarg \<Rightarrow> vec option list option \<Rightarrow> error + mat option" where
  "invert_cell cell stored =
     (case stored of
        None \<Rightarrow> Inr None
      | Some rs \<Rightarrow>
          if \<not> falsy_cell cell \<and> None \<notin> set rs then
            and_then (mjs_inv (map the rs)) (\<lambda>m. Inr (Some m))
          else Inr None)"

text \<open>The arrays kept per atom under \<^verbatim>\<open>_arrays\<close>: symbols and labels, numbers, positions.\<close>

datatype arr = Symbols "elem list" | Numbers "int list" | Vectors "vec list"

definition arr_length :: "arr \<Rightarrow> nat" where
  "arr_length a = (case a of Symbols xs \<Rightarrow> length xs | Numbers xs \<Rightarrow> length xs | Vectors xs \<Rightarrow> length xs)"

record atoms =
  at_arrays :: "(string \<times> arr) list"
  at_N :: nat
  at_pbc :: "bool list"
  at_cell :: "vec option list option"
  at_inv_cell :: "mat option"
  at_info :: "(string \<times> string) list"

definition set_array :: "string \<Rightarrow> arr \<Rightarrow> atoms \<Rightarrow> error + atoms" where
  "set_array name a m =
     (if arr_length a \<noteq> at_N m then Inl InvalidArraySize
      else Inr (m\<lparr>at_arrays := AList.update name a (at_arrays m)\<rparr>))"

definition get_array :: "string \<Rightarrow> atoms \<Rightarrow> arr option" where
  "get_array name m = map_of (at_arrays m) name"

text \<open>Lines 214 to 220: scaled positions are multiplied by the cell, which must have
  an inverse.\<close>

definition absolute_positions ::
  "bool \<Rightarrow> mat option \<Rightarrow> vec option list option \<Rightarrow> vec list \<Rightarrow> error + vec list" where
  "absolute_positions scaled inv_cell stored positions =
     (if scaled then
        (case inv_cell of
           None \<Rightarrow> Inl ScaledNonPeriodic
         | Some _ \<Rightarrow> mjs_multiply_mm positions (map the (the stored)))
      else Inr positions)"

text \<open>
  The constructor \<^verbatim>\<open>Atoms(elems, positions, cell, info, scaled, tolerant)\<close>. The
  positions are arrays of numbers; \<^verbatim>\<open>info\<close> is \<open>None\<close> for a falsy argument.
\<close>

definition Atoms ::
  "mndtable \<Rightarrow> elem list \<Rightarrow> vec list \<Rightarrow> cellarg \<Rightarrow> (string \<times> string) list option \<Rightarrow> bool \<Rightarrow> bool
     \<Rightarrow> error + atoms" where
  "Atoms tbl elems positions cell info scaled tolerant =
     and_then (species tbl tolerant elems) (\<lambda>(symbols, numbers).
     and_then (store_cell cell) (\<lambda>(stored, pbc).
     and_then (invert_cell cell stored) (\<lambda>inv_cell.
       if \<not> (length positions = length symbols \<and> list_all (\<lambda>p. length p = 3) positions)
       then Inl InvalidPositions
       else
         and_then (absolute_positions scaled inv_cell stored positions) (\<lambda>positions'.
         and_then
           (set_array ''positions'' (Vectors positions')
              \<lparr>at_arrays = [(''symbols'', Symbols symbols), (''numbers'', Numbers numbers)],
               at_N = length symbols, at_pbc = pbc, at_cell = stored, at_inv_cell = inv_cell,
               at_info = []\<rparr>) (\<lambda>m.
           Inr (m\<lparr>at_info := (case info of None \<Rightarrow> [] | Some i \<Rightarrow> i)\<rparr>))))))"

text \<open>
  \<^verbatim>\<open>get_scaled_positions\<close>. With no inverse cell \<^verbatim>\<open>ic[0]\<close> raises as soon as there
  is an atom; a position of fewer than three components gives a NaN.
\<close>

definition scaled_position :: "mat \<Rightarrow> vec \<Rightarrow> error + vec" where
  "scaled_position ic p =
     (if length p < 3 \<or> length ic < 3 \<or> \<not> list_all (\<lambda>r. 3 \<le> length r) ic then Inl OutsideModel
      else Inr [p ! 0 * ic ! 0 ! 0 + p ! 1 * ic ! 1 ! 0 + p ! 2 * ic ! 2 ! 0,
                p ! 0 * ic ! 0 ! 1 + p ! 1 * ic ! 1 ! 1 + p ! 2 * ic ! 2 ! 1,
                p ! 0 * ic ! 0 ! 2 + p ! 1 * ic ! 1 ! 2 + p ! 2 * ic ! 2 ! 2])"

definition get_scaled_positions :: "atoms \<Rightarrow> error + mat" where
  "get_scaled_positions m =
     (case get_array ''positions'' m of
        None \<Rightarrow> Inl TypeError
      | Some a \<Rightarrow>
          if arr_length a = 0 then Inr []
          else
            (case at_inv_cell m of
               None \<Rightarrow> Inl TypeError
             | Some ic \<Rightarrow>
                 (case a of
                    Vectors pos \<Rightarrow> all_ok (map (scaled_position ic) pos)
                  | _ \<Rightarrow> Inl OutsideModel)))"

text \<open>The product of a row vector with a matrix, as the specification words it:
  component \<open>j\<close> of \<open>p \<cdot> M\<close> is the sum of \<open>p\<^sub>i M\<^sub>i\<^sub>j\<close> over the three rows.\<close>

definition row_times_matrix :: "vec \<Rightarrow> mat \<Rightarrow> vec" where
  "row_times_matrix p M = map (\<lambda>j. \<Sum>i < 3. p ! i * M ! i ! j) [0 ..< 3]"

section \<open>Reading a parsed CIF document\<close>

text \<open>
  \<^verbatim>\<open>parseCif\<close> (\<^verbatim>\<open>lib/parse.js\<close>) is not among the sources; the model starts from its
  result: the blocks by name, in the order in which JavaScript enumerates them, each
  block its tags in a list. A tag holds a single value or a loop of values; a value has
  its source text and the typed scalar \<^verbatim>\<open>get_value()\<close>, a number or a string.
\<close>

datatype cval = Num real | Text string

datatype leaf = Leaf string cval

fun leaf_text :: "leaf \<Rightarrow> string" where
  "leaf_text (Leaf t v) = t"

fun get_value :: "leaf \<Rightarrow> cval" where
  "get_value (Leaf t v) = v"

datatype entry = Single leaf | Loop "leaf list"

type_synonym cblock = "(string \<times> entry) list"

text \<open>The second \<^verbatim>\<open>map\<close> of \<^verbatim>\<open>_extract_tags\<close>: the values of a tag that has the type
  and the length of the first one, \<open>None\<close> for \<^verbatim>\<open>null\<close>.\<close>

definition like_first :: "entry \<Rightarrow> entry \<Rightarrow> leaf list option" where
  "like_first e0 x =
     (case (e0, x) of
        (Loop v0, Loop v) \<Rightarrow> if length v \<noteq> length v0 then None else Some v
      | (Single _, Single l) \<Rightarrow> Some [l]
      | _ \<Rightarrow> None)"

definition extract_tags :: "cblock \<Rightarrow> string list \<Rightarrow> leaf list option list option" where
  "extract_tags cblock tags =
     (case tags of
        [] \<Rightarrow> None
      | t0 # _ \<Rightarrow>
          (case map_of cblock t0 of
             None \<Rightarrow> None
           | Some e0 \<Rightarrow>
               Some (map (\<lambda>tag. case map_of cblock tag of
                                   None \<Rightarrow> None
                                 | Some x \<Rightarrow> like_first e0 x) tags)))"

text \<open>An atom site: the properties \<^verbatim>\<open>_atom_sites\<close> sets, \<open>None\<close> for a property that
  is not set (\<^verbatim>\<open>undefined\<close>).\<close>

record asite =
  label :: "cval option"
  type_symbol :: "cval option"
  Cartn_x :: "cval option"
  Cartn_y :: "cval option"
  Cartn_z :: "cval option"
  fract_x :: "cval option"
  fract_y :: "cval option"
  fract_z :: "cval option"

definition asite_tags :: "string list" where
  "asite_tags =
     [''_atom_site_label'', ''_atom_site_type_symbol'',
      ''_atom_site_Cartn_x'', ''_atom_site_Cartn_y'', ''_atom_site_Cartn_z'',
      ''_atom_site_fract_x'', ''_atom_site_fract_y'', ''_atom_site_fract_z'']"

definition site_value :: "leaf list option list \<Rightarrow> nat \<Rightarrow> nat \<Rightarrow> cval option" where
  "site_value sitevals j i =
     (case sitevals ! j of None \<Rightarrow> None | Some ls \<Rightarrow> Some (get_value (ls ! i)))"

definition atom_sites :: "cblock \<Rightarrow> asite list option" where
  "atom_sites cblock =
     (case extract_tags cblock asite_tags of
        None \<Rightarrow> None
      | Some sitevals \<Rightarrow>
          Some (map (\<lambda>i.
                 \<lparr>label = site_value sitevals 0 i, type_symbol = site_value sitevals 1 i,
                  Cartn_x = site_value sitevals 2 i, Cartn_y = site_value sitevals 3 i,
                  Cartn_z = site_value sitevals 4 i, fract_x = site_value sitevals 5 i,
                  fract_y = site_value sitevals 6 i, fract_z = site_value sitevals 7 i\<rparr>)
               [0 ..< length (the (sitevals ! 0))]))"

definition cell_tags :: "string list" where
  "cell_tags =
     [''_cell_length_a'', ''_cell_length_b'', ''_cell_length_c'',
      ''_cell_angle_alpha'', ''_cell_angle_beta'', ''_cell_angle_gamma'']"

text \<open>
  The loop of \<^verbatim>\<open>_cellpars\<close> (lines 385 to 390): \<open>None\<close> when it returns \<^verbatim>\<open>null\<close> at
  a tag the block does not have. The value of a loop is an array, which has no
  \<^verbatim>\<open>get_value\<close>: the call raises.
\<close>

fun cell_values :: "cblock \<Rightarrow> string list \<Rightarrow> error + cval list option" where
  "cell_values cblock [] = Inr (Some [])"
| "cell_values cblock (t # ts) =
     (case map_of cblock t of
        None \<Rightarrow> Inr None
      | Some (Loop _) \<Rightarrow> Inl TypeError
      | Some (Single l) \<Rightarrow>
          and_then (cell_values cblock ts) (\<lambda>r. Inr (map_option (\<lambda>vs. get_value l # vs) r)))"

text \<open>A value where the program computes with a number: a string leaves the model.\<close>

definition as_number :: "cval \<Rightarrow> error + real" where
  "as_number v = (case v of Num x \<Rightarrow> Inr x | Text _ \<Rightarrow> Inl OutsideModel)"

definition cellpars :: "cblock \<Rightarrow> error + (vec \<times> vec) option" where
  "cellpars cblock =
     and_then (cell_values cblock cell_tags) (\<lambda>r.
       case r of
         None \<Rightarrow> Inr None
       | Some vs \<Rightarrow>
           and_then (all_ok (map as_number vs)) (\<lambda>xs.
             if list_ex (\<lambda>x. x = 0) (take 3 xs) then Inr None
             else Inr (Some (take 3 xs, drop 3 xs))))"

text \<open>
  The symmetry operations come from \<^verbatim>\<open>lib/symmetry.js\<close>, which is not among the
  sources: its two functions are parameters of the model. An operation is a rotation
  and a translation.
\<close>

type_synonym symop = "mat \<times> vec"

record symmetry =
  parseSymOp :: "string \<Rightarrow> error + symop"
  interpretHallSymbol :: "entry \<Rightarrow> error + symop list option"

definition first_present :: "cblock \<Rightarrow> string \<Rightarrow> string \<Rightarrow> entry option" where
  "first_present cblock t1 t2 =
     (case map_of cblock t1 of Some e \<Rightarrow> Some e | None \<Rightarrow> map_of cblock t2)"

definition symops :: "symmetry \<Rightarrow> cblock \<Rightarrow> error + symop list option" where
  "symops symm cblock =
     (case first_present cblock ''_space_group_symop_operation_xyz''
             ''_symmetry_equiv_pos_as_xyz'' of
        Some (Single _) \<Rightarrow> Inr None
      | Some (Loop vs) \<Rightarrow>
          if length vs = 1 then Inr None
          else and_then (all_ok (map (\<lambda>v. parseSymOp symm (leaf_text v)) (tl vs))) (\<lambda>ops.
                 Inr (Some ops))
      | None \<Rightarrow>
          (case first_present cblock ''_space_group_name_Hall''
                  ''_symmetry_space_group_name_Hall'' of
             Some h \<Rightarrow> interpretHallSymbol symm h
           | None \<Rightarrow> Inr None))"

text \<open>Modelled from the spec: \<^verbatim>\<open>utils.mod1\<close>, which reduces each component into
  \<open>[0, 1)\<close>.\<close>

definition utils_mod1 :: "vec \<Rightarrow> vec" where
  "utils_mod1 v = map (\<lambda>x. x - of_int \<lfloor>x\<rfloor>) v"

text \<open>Modelled from the spec: \<^verbatim>\<open>utils.shortestPeriodicLength\<close>, the length of the
  shortest periodic copy of a fractional displacement (the minimal image): each
  component is moved by \<open>-1\<close>, \<open>0\<close> or \<open>1\<close>, whichever leaves it smallest.\<close>

definition utils_shortestPeriodicLength :: "vec \<Rightarrow> real" where
  "utils_shortestPeriodicLength fx =
     mjs_norm (map (\<lambda>x. min \<bar>x\<bar> (min \<bar>x - 1\<bar> \<bar>x + 1\<bar>)) fx)"

text \<open>Lines 497 to 500: the image of \<open>p0\<close> under an operation, reduced into the cell.\<close>

definition image :: "symop \<Rightarrow> vec \<Rightarrow> error + vec" where
  "image op p0 =
     and_then (mjs_multiply_mv (fst op) p0) (\<lambda>q.
     and_then (mjs_add q (snd op)) (\<lambda>p. Inr (utils_mod1 p)))"

text \<open>Lines 504 to 506: the periodic distance of \<open>p\<close> to an accepted position \<open>q\<close>.\<close>

definition periodic_distance :: "vec \<Rightarrow> vec \<Rightarrow> error + real" where
  "periodic_distance p q =
     and_then (mjs_subtract p q) (\<lambda>r. Inr (utils_shortestPeriodicLength (utils_mod1 r)))"

text \<open>The loop over \<open>k\<close> (lines 502 to 510): is \<open>p\<close> closer than \<^verbatim>\<open>symtol\<close> to an
  accepted position? It stops at the first one that is.\<close>

fun is_duplicate :: "real \<Rightarrow> vec \<Rightarrow> vec list \<Rightarrow> error + bool" where
  "is_duplicate symtol p [] = Inr False"
| "is_duplicate symtol p (q # qs) =
     and_then (periodic_distance p q) (\<lambda>r.
       if r < symtol then Inr True else is_duplicate symtol p qs)"

text \<open>The loop over \<open>j\<close> (lines 496 to 514) for one site \<open>p0\<close>, from the accepted
  positions \<open>allp\<close> so far.\<close>

fun images :: "real \<Rightarrow> symop list \<Rightarrow> vec \<Rightarrow> vec list \<Rightarrow> error + vec list" where
  "images symtol [] p0 allp = Inr allp"
| "images symtol (op # ops) p0 allp =
     and_then (image op p0) (\<lambda>p.
     and_then (is_duplicate symtol p allp) (\<lambda>eq.
       images symtol ops p0 (if eq then allp else allp @ [p])))"

text \<open>Lines 488 to 522: the symmetric copies of every site, with the symbol and the
  label of the site repeated for each copy.\<close>

definition expand ::
  "real \<Rightarrow> symop list \<Rightarrow> mat \<Rightarrow> elem list \<Rightarrow> elem list \<Rightarrow> vec list
     \<Rightarrow> error + (elem list \<times> elem list \<times> vec list)" where
  "expand symtol ops cell symbols labels positions =
     and_then (mjs_inv cell) (\<lambda>ic.
     and_then (mjs_multiply_mm positions ic) (\<lambda>fpos.
     and_then (all_ok (map (\<lambda>p0. images symtol ops p0 [p0]) fpos)) (\<lambda>orbits.
     and_then (mjs_multiply_mm (concat orbits) cell) (\<lambda>positions'.
       Inr (concat (map2 (\<lambda>s allp. replicate (length allp) s) symbols orbits),
            concat (map2 (\<lambda>s allp. replicate (length allp) s) labels orbits),
            positions')))))"

text \<open>A coordinate triple handed to mathjs: \<^verbatim>\<open>undefined\<close> is refused.\<close>

definition coordinates :: "cval option list \<Rightarrow> error + vec" where
  "coordinates p =
     all_ok (map (\<lambda>c. case c of None \<Rightarrow> Inl TypeError | Some v \<Rightarrow> as_number v) p)"

text \<open>
  One turn of the loop over the sites (lines 468 to 482): the position pushed for a
  site. \<open>cell\<close> is the variable \<^verbatim>\<open>cell\<close> of \<^verbatim>\<open>readCif\<close>, \<open>None\<close> while it is
  \<^verbatim>\<open>undefined\<close>.
\<close>

definition site_position :: "bool \<Rightarrow> mat option \<Rightarrow> asite \<Rightarrow> error + vec" where
  "site_position pbc cell site =
     (let p = [Cartn_x site, Cartn_y site, Cartn_z site] in
      if list_ex (\<lambda>x. x = None) p then
        (if \<not> pbc then Inl AbsoluteCoordinatesNeeded
         else
           and_then (coordinates [fract_x site, fract_y site, fract_z site]) (\<lambda>f.
             case cell of None \<Rightarrow> Inl TypeError | Some c \<Rightarrow> mjs_multiply_vm f c))
      else coordinates p)"

definition as_elem :: "cval option \<Rightarrow> elem" where
  "as_elem v = (case v of None \<Rightarrow> EUndef | Some (Num x) \<Rightarrow> ENum x | Some (Text s) \<Rightarrow> EStr s)"

definition as_cellarg :: "mat option \<Rightarrow> cellarg" where
  "as_cellarg cell = (case cell of None \<Rightarrow> CellNull | Some m \<Rightarrow> CellRows (map RowVec m))"

text \<open>
  The body of the loop over the structures (lines 452 to 530). \<^verbatim>\<open>var cell\<close> is a
  variable of the function \<^verbatim>\<open>readCif\<close>, not of the loop body: the body starts with the
  value \<open>cell0\<close> the turn before left in it and assigns it only when the block has cell
  parameters. The result is the structure and the value of \<^verbatim>\<open>cell\<close> after the turn.
  \<^verbatim>\<open>_atom_types\<close> is called first; its result is not used.
\<close>

definition read_block ::
  "mndtable \<Rightarrow> symmetry \<Rightarrow> real \<Rightarrow> mat option \<Rightarrow> cblock \<Rightarrow> error + (atoms \<times> mat option)" where
  "read_block tbl symm symtol cell0 cblock =
     (case atom_sites cblock of
        None \<Rightarrow> Inl TypeError
      | Some asites \<Rightarrow>
          and_then (cellpars cblock) (\<lambda>cp.
          let pbc = (cp \<noteq> None) in
          and_then (case cp of
                      None \<Rightarrow> Inr cell0
                    | Some c \<Rightarrow> and_then (cellparToCell c None None False) (\<lambda>m. Inr (Some m)))
            (\<lambda>cell.
          let symbols = map (\<lambda>a. as_elem (type_symbol a)) asites;
              labels = map (\<lambda>a. as_elem (label a)) asites
          in
          and_then (all_ok (map (site_position pbc cell) asites)) (\<lambda>positions.
          and_then (if pbc then symops symm cblock else Inr None) (\<lambda>ops.
          and_then (case ops of
                      None \<Rightarrow> Inr (symbols, labels, positions)
                    | Some os \<Rightarrow> expand symtol os (the cell) symbols labels positions)
            (\<lambda>(symbols', labels', positions').
          and_then (Atoms tbl symbols' positions' (as_cellarg cell) (Some []) False False) (\<lambda>a.
          and_then (set_array ''labels'' (Symbols labels') a) (\<lambda>a'.
            Inr (a', cell)))))))))"

fun read_blocks ::
  "mndtable \<Rightarrow> symmetry \<Rightarrow> real \<Rightarrow> mat option \<Rightarrow> (string \<times> cblock) list
     \<Rightarrow> error + (string \<times> atoms) list" where
  "read_blocks tbl symm symtol cell [] = Inr []"
| "read_blocks tbl symm symtol cell ((sname, cblock) # rest) =
     and_then (read_block tbl symm symtol cell cblock) (\<lambda>(a, cell').
     and_then (read_blocks tbl symm symtol cell' rest) (\<lambda>r. Inr ((sname, a) # r)))"

text \<open>
  \<^verbatim>\<open>Atoms.readCif(cif, symtol)\<close>, from the parsed document: the blocks that have the tag
  \<^verbatim>\<open>_atom_site_label\<close>, each turned into a structure, in their order. The names of
  the blocks are the keys of an object, so no two are equal. The default of
  \<^verbatim>\<open>symtol\<close> is \<open>1e-3\<close>.
\<close>

definition readCif ::
  "mndtable \<Rightarrow> symmetry \<Rightarrow> (string \<times> cblock) list \<Rightarrow> real \<Rightarrow> error + (string \<times> atoms) list" where
  "readCif tbl symm cifdict symtol =
     read_blocks tbl symm symtol None
       (filter (\<lambda>(bname, block). map_of block ''_atom_site_label'' \<noteq> None) cifdict)"

text \<open>A periodic table that holds carbon alone, for the examples.\<close>

definition carbon_table :: mndtable where
  "carbon_table =
     \<lparr>getAtomic = (\<lambda>n. if n = 6 then Some \<lparr>symbol = ''C'', number = 6\<rparr> else None),
      getElement = (\<lambda>e. if e = EStr ''C'' then Some \<lparr>symbol = ''C'', number = 6\<rparr> else None)\<rparr>"

text \<open>A symmetry library for the examples: it reads every operation string as the
  identity and knows no Hall symbol.\<close>

definition identity_symmetry :: symmetry where
  "identity_symmetry =
     \<lparr>parseSymOp = (\<lambda>s. Inr ([[1, 0, 0], [0, 1, 0], [0, 0, 1]], [0, 0, 0])),
      interpretHallSymbol = (\<lambda>e. Inr None)\<rparr>"


text \<open>
  Blocks for the examples. \<open>carbon_at\<close> is a block of one carbon atom with the Cartesian
  coordinates given; \<open>carbon_fract\<close> has the fractional coordinates \<open>(0.5, 0.5, 0.5)\<close>
  instead; \<open>cell_of\<close> gives the six cell tags, as single numbers.
\<close>

definition number_tag :: "string \<Rightarrow> real \<Rightarrow> string \<times> entry" where
  "number_tag tag x = (tag, Single (Leaf [] (Num x)))"

definition carbon_at :: "real \<Rightarrow> real \<Rightarrow> real \<Rightarrow> cblock" where
  "carbon_at x y z =
     [(''_atom_site_label'', Loop [Leaf ''C1'' (Text ''C1'')]),
      (''_atom_site_type_symbol'', Loop [Leaf ''C'' (Text ''C'')]),
      (''_atom_site_Cartn_x'', Loop [Leaf [] (Num x)]),
      (''_atom_site_Cartn_y'', Loop [Leaf [] (Num y)]),
      (''_atom_site_Cartn_z'', Loop [Leaf [] (Num z)])]"

definition carbon_fract :: cblock where
  "carbon_fract =
     [(''_atom_site_label'', Loop [Leaf ''C1'' (Text ''C1'')]),
      (''_atom_site_type_symbol'', Loop [Leaf ''C'' (Text ''C'')]),
      (''_atom_site_fract_x'', Loop [Leaf [] (Num (1 / 2))]),
      (''_atom_site_fract_y'', Loop [Leaf [] (Num (1 / 2))]),
      (''_atom_site_fract_z'', Loop [Leaf [] (Num (1 / 2))])]"

definition cell_of :: "real \<Rightarrow> real \<Rightarrow> real \<Rightarrow> real \<Rightarrow> real \<Rightarrow> real \<Rightarrow> cblock" where
  "cell_of a b c alpha beta gamma =
     [number_tag ''_cell_length_a'' a, number_tag ''_cell_length_b'' b,
      number_tag ''_cell_length_c'' c, number_tag ''_cell_angle_alpha'' alpha,
      number_tag ''_cell_angle_beta'' beta, number_tag ''_cell_angle_gamma'' gamma]"

text \<open>The structure \<^verbatim>\<open>readCif\<close> returns for a block of one carbon atom, without a
  cell or with the unit cube for its cell.\<close>

definition carbon_structure :: "real \<Rightarrow> real \<Rightarrow> real \<Rightarrow> bool \<Rightarrow> atoms" where
  "carbon_structure x y z periodic =
     \<lparr>at_arrays = [(''symbols'', Symbols [EStr ''C'']), (''numbers'', Numbers [6]),
                   (''positions'', Vectors [[x, y, z]]), (''labels'', Symbols [EStr ''C1''])],
      at_N = 1,
      at_pbc = [periodic, periodic, periodic],
      at_cell = (if periodic then Some [Some [1, 0, 0], Some [0, 1, 0], Some [0, 0, 1]] else None),
      at_inv_cell = (if periodic then Some [[1, 0, 0], [0, 1, 0], [0, 0, 1]] else None),
      at_info = []\<rparr>"


section \<open>The structure model in storage\<close>

text \<open>
  Whether an accessor hands out a copy or the stored array itself is a matter of
  references. Here the arrays live in a store: array number \<open>a\<close> is \<open>h ! a\<close>, and a
  value is a scalar or the reference \<open>JRef a\<close> to an array. A tree is a value with the
  arrays it reaches written out.
\<close>

datatype jsv = JUndef | JNull | JBool bool | JNum real | JStr string | JRef nat

type_synonym store = "jsv list list"

datatype jtree = TUndef | TNull | TBool bool | TNum real | TStr string | TArr "jtree list"

text \<open>The tree of a value, followed through at most \<open>n\<close> nested arrays.\<close>

fun read_tree :: "store \<Rightarrow> nat \<Rightarrow> jsv \<Rightarrow> jtree option" where
  "read_tree h n JUndef = Some TUndef"
| "read_tree h n JNull = Some TNull"
| "read_tree h n (JBool b) = Some (TBool b)"
| "read_tree h n (JNum x) = Some (TNum x)"
| "read_tree h n (JStr s) = Some (TStr s)"
| "read_tree h 0 (JRef a) = None"
| "read_tree h (Suc n) (JRef a) =
     (if a < length h then map_option TArr (those (map (read_tree h n) (h ! a))) else None)"

text \<open>A tree written into new arrays, at the end of the store.\<close>

fun write_tree :: "jtree \<Rightarrow> store \<Rightarrow> jsv \<times> store"
  and write_trees :: "jtree list \<Rightarrow> store \<Rightarrow> jsv list \<times> store" where
  "write_tree TUndef h = (JUndef, h)"
| "write_tree TNull h = (JNull, h)"
| "write_tree (TBool b) h = (JBool b, h)"
| "write_tree (TNum x) h = (JNum x, h)"
| "write_tree (TStr s) h = (JStr s, h)"
| "write_tree (TArr ts) h = (case write_trees ts h of (vs, h') \<Rightarrow> (JRef (length h'), h' @ [vs]))"
| "write_trees [] h = ([], h)"
| "write_trees (t # ts) h =
     (case write_tree t h of (v, h1) \<Rightarrow>
        case write_trees ts h1 of (vs, h2) \<Rightarrow> (v # vs, h2))"

text \<open>Modelled from the spec: \<^verbatim>\<open>utils.deepClone\<close>, which returns an independent copy
  (\<open>all accessors return independent copies\<close>): the value is read with the arrays it
  reaches and written into arrays of its own. A value that holds itself has no
  copy.\<close>

definition utils_deepClone :: "jsv \<Rightarrow> store \<Rightarrow> error + (jsv \<times> store)" where
  "utils_deepClone v h =
     (case read_tree h (length h) v of None \<Rightarrow> Inl TypeError | Some t \<Rightarrow> Inr (write_tree t h))"

text \<open>The fields of a structure, as references into the store.\<close>

record atoms_ref =
  ref_arrays :: "(string \<times> jsv) list"
  ref_cell :: jsv
  ref_inv_cell :: jsv
  ref_pbc :: jsv

text \<open>
  The accessors of \<^verbatim>\<open>Atoms.prototype\<close> (lines 241 to 261), each with the value it
  returns and the store after the call. \<^verbatim>\<open>get_array\<close> returns what \<^verbatim>\<open>_arrays\<close> holds
  under the name; the others clone.
\<close>

datatype query =
    Get_array string
  | Get_chemical_symbols
  | Get_atomic_numbers
  | Get_cell
  | Get_inv_cell
  | Get_pbc
  | Get_positions

definition array_ref :: "string \<Rightarrow> atoms_ref \<Rightarrow> jsv" where
  "array_ref name obj = (case map_of (ref_arrays obj) name of None \<Rightarrow> JUndef | Some v \<Rightarrow> v)"

fun run_query :: "query \<Rightarrow> atoms_ref \<Rightarrow> store \<Rightarrow> error + (jsv \<times> store)" where
  "run_query (Get_array name) obj h = Inr (array_ref name obj, h)"
| "run_query Get_chemical_symbols obj h = utils_deepClone (array_ref ''symbols'' obj) h"
| "run_query Get_atomic_numbers obj h = utils_deepClone (array_ref ''numbers'' obj) h"
| "run_query Get_cell obj h = utils_deepClone (ref_cell obj) h"
| "run_query Get_inv_cell obj h = utils_deepClone (ref_inv_cell obj) h"
| "run_query Get_pbc obj h = utils_deepClone (ref_pbc obj) h"
| "run_query Get_positions obj h = utils_deepClone (array_ref ''positions'' obj) h"

fun clones :: "query \<Rightarrow> bool" where
  "clones (Get_array name) = False"
| "clones q = True"

text \<open>What a caller sees of a result: the returned value with the arrays it reaches.\<close>

definition seen :: "error + (jsv \<times> store) \<Rightarrow> error + jtree" where
  "seen r =
     and_then r (\<lambda>(v, h).
       case read_tree h (length h) v of None \<Rightarrow> Inl TypeError | Some t \<Rightarrow> Inr t)"

text \<open>
  What a caller can do to the store: give an array new contents (an assignment to an
  element, a push, a sort), or make a new array.
\<close>

datatype mutation = Write nat "jsv list" | New "jsv list"

fun mutate :: "store \<Rightarrow> mutation \<Rightarrow> store" where
  "mutate h (Write a vs) = (if a < length h then h[a := vs] else h)"
| "mutate h (New vs) = h @ [vs]"

text \<open>The mutation leaves the arrays below \<open>n\<close> alone.\<close>

fun above :: "nat \<Rightarrow> mutation \<Rightarrow> bool" where
  "above n (Write a vs) = (n \<le> a)"
| "above n (New vs) = True"

text \<open>
  A store in which every array comes after the arrays it holds (so that no array holds
  itself), and a structure whose fields lie in the store.
\<close>

definition in_store :: "nat \<Rightarrow> jsv \<Rightarrow> bool" where
  "in_store n v = (case v of JRef a \<Rightarrow> a < n | _ \<Rightarrow> True)"

definition downward :: "store \<Rightarrow> bool" where
  "downward h = list_all (\<lambda>(a, vs). list_all (in_store a) vs) (enumerate 0 h)"

definition well_stored :: "atoms_ref \<Rightarrow> store \<Rightarrow> bool" where
  "well_stored obj h \<longleftrightarrow>
     downward h
     \<and> list_all (\<lambda>(name, v). in_store (length h) v) (ref_arrays obj)
     \<and> in_store (length h) (ref_cell obj)
     \<and> in_store (length h) (ref_inv_cell obj)
     \<and> in_store (length h) (ref_pbc obj)"

text \<open>Two stores hold the same arrays below \<open>n\<close>.\<close>

definition same_below :: "nat \<Rightarrow> store \<Rightarrow> store \<Rightarrow> bool" where
  "same_below n h h' \<longleftrightarrow> n \<le> length h \<and> n \<le> length h' \<and> take n h = take n h'"

text \<open>
  A value whose arrays all lie at \<open>n\<close> or above in the store: it is no reference below
  \<open>n\<close>, and no array at \<open>n\<close> or above holds one.
\<close>

definition above_ref :: "nat \<Rightarrow> jsv \<Rightarrow> bool" where
  "above_ref n v = (case v of JRef a \<Rightarrow> n \<le> a | _ \<Rightarrow> True)"

definition own_arrays :: "nat \<Rightarrow> store \<Rightarrow> jsv \<Rightarrow> bool" where
  "own_arrays n h v \<longleftrightarrow> above_ref n v \<and> list_all (list_all (above_ref n)) (drop n h)"

text \<open>The structure \<^verbatim>\<open>new Atoms(['C'], [[0, 0, 0]])\<close> in a store of five arrays.\<close>

definition carbon_store :: store where
  "carbon_store =
     [[JStr ''C''], [JNum 6], [JNum 0, JNum 0, JNum 0], [JRef 2],
      [JBool False, JBool False, JBool False]]"

definition carbon_ref :: atoms_ref where
  "carbon_ref =
     \<lparr>ref_arrays = [(''symbols'', JRef 0), (''numbers'', JRef 1), (''positions'', JRef 3)],
      ref_cell = JNull, ref_inv_cell = JNull, ref_pbc = JRef 4\<rparr>"

section \<open>Properties\<close>

subsection \<open>Failures\<close>

lemma and_then_Inr [simp]: "and_then (Inr x) f = f x"
  by (simp add: and_then_def)

lemma and_then_Inl [simp]: "and_then (Inl e) f = Inl e"
  by (simp add: and_then_def)

lemma and_then_eq_Inr: "and_then r f = Inr y \<longleftrightarrow> (\<exists>x. r = Inr x \<and> f x = Inr y)"
  by (cases r) simp_all

subsection \<open>Cell geometry\<close>

lemma cross_x: "utils_cross [x, y, z] [1, 0, 0] = Inr [0, z, - y]"
  by (simp add: utils_cross_def)

lemma default_a_direction_3:
  "default_a_direction [x, y, z] =
     Inr (if sqrt (y\<^sup>2 + z\<^sup>2) < 1 / 10 ^ 5 then [0, 0, 1] else [1, 0, 0])"
  by (simp add: default_a_direction_def cross_x mjs_norm_def power2_eq_square add.commute)

lemma rotated_system_default:
  "rotated_system [0, 0, 1] [1, 0, 0] = Inr [[1, 0, 0], [0, 1, 0], [0, 0, 1]]"
  by (simp add: rotated_system_def utils_unit_def mjs_norm_def mjs_dot_def mjs_subtract_def
      mjs_dotMultiply_def utils_cross_def)

lemma multiply_identity:
  "mjs_multiply_mm [[a0, a1, a2], [b0, b1, b2], [c0, c1, c2]] [[1, 0, 0], [0, 1, 0], [0, 0, 1]]
     = Inr [[a0, a1, a2], [b0, b1, b2], [c0, c1, c2]]"
  by (simp add: mjs_multiply_mm_def mjs_multiply_vm_def)

lemma snap_exact:
  assumes "0 < a" "a < pi" "a = pi / 2 \<or> sin a \<le> 1 - 1 / 10 ^ 14"
  shows "snap a = (cos a, sin a)"
proof (cases "a = pi / 2")
  case True
  show ?thesis unfolding True by (simp add: snap_def)
next
  case False
  with assms(3) have le: "sin a \<le> 1 - 1 / 10 ^ 14" by simp
  have "0 < sin a" using assms(1,2) by (rule sin_gt_zero)
  with le have "\<not> \<bar>\<bar>sin a\<bar> - 1\<bar> < 1 / 10 ^ 14" by simp
  then show ?thesis by (simp add: snap_def)
qed

lemma cell_vectors_exact:
  assumes sa: "snap a = (cos a, sin a)" and sb: "snap b = (cos b, sin b)"
    and sc: "snap c = (cos c, sin c)" and c0: "sin c \<noteq> 0"
    and r: "(l2 * cos b)\<^sup>2 + (l2 * (cos a - cos b * cos c) / sin c)\<^sup>2 \<le> l2\<^sup>2"
  shows "cell_vectors [l0, l1, l2] [a, b, c] =
     Inr [[l0, 0, 0], [l1 * cos c, l1 * sin c, 0],
          [l2 * cos b, l2 * (cos a - cos b * cos c) / sin c,
           sqrt (l2\<^sup>2 - (l2 * cos b)\<^sup>2 - (l2 * (cos a - cos b * cos c) / sin c)\<^sup>2)]]"
  using c0 r by (simp add: cell_vectors_def sa sb sc Let_def power2_eq_square)

lemma norm3: "mjs_norm [x, y, z] = sqrt (x\<^sup>2 + y\<^sup>2 + z\<^sup>2)"
  by (simp add: mjs_norm_def power2_eq_square)






lemma cellparToCell_default:
  "cellparToCell (l, angs) None None False =
     and_then (cell_vectors l (map utils_degToRad angs))
       (\<lambda>vs. mjs_multiply_mm vs [[1, 0, 0], [0, 1, 0], [0, 0, 1]])"
proof -
  have "default_a_direction [0, 0, 1] = Inr [1, 0, 0]"
    by (simp add: default_a_direction_3)
  then show ?thesis
    by (simp add: cellparToCell_def rotated_system_default)
qed





text \<open>
  C5. The claim has the default of \<^verbatim>\<open>a_direction\<close> the wrong way round. Two vectors
  are parallel within \<open>1e-5\<close> when the norm of their cross product is below \<open>1e-5\<close>, and
  the cross product of \<open>[x, y, z]\<close> with \<open>[1, 0, 0]\<close> is \<open>[0, z, -y]\<close>. The normal
  \<open>[0, 0, 1]\<close> is not parallel to \<open>[1, 0, 0]\<close>: the cross product is \<open>[0, 1, 0]\<close>, of norm
  one; the default is then \<open>[1, 0, 0]\<close>, not \<open>[0, 0, 1]\<close>.
\<close>

theorem a_direction_default_counterexample:
  "utils_cross [0, 0, 1] [1, 0, 0] = Inr [0, 1, 0]
   \<and> \<not> mjs_norm [0, 1, 0] < 1 / 10 ^ 5
   \<and> default_a_direction [0, 0, 1] = Inr [1, 0, 0]
   \<and> default_a_direction [0, 0, 1] \<noteq> Inr [0, 0, 1]"
  by (simp add: default_a_direction_3 cross_x norm3)

text \<open>
  C5, amended. When the caller gives no \<^verbatim>\<open>a_direction\<close>, \<^verbatim>\<open>cellparToCell\<close> computes
  what it computes for \<open>[0, 0, 1]\<close> if \<^verbatim>\<open>ab_normal\<close> is parallel to \<open>[1, 0, 0]\<close> within
  \<open>1e-5\<close>, and what it computes for \<open>[1, 0, 0]\<close> otherwise; with no \<^verbatim>\<open>ab_normal\<close> either
  (the normal is then \<open>[0, 0, 1]\<close>) the direction is \<open>[1, 0, 0]\<close>.
\<close>

theorem a_direction_default:
  "cellparToCell cellpar (Some [x, y, z]) None radians =
     cellparToCell cellpar (Some [x, y, z])
       (Some (if sqrt (y\<^sup>2 + z\<^sup>2) < 1 / 10 ^ 5 then [0, 0, 1] else [1, 0, 0])) radians
   \<and> cellparToCell cellpar None None radians =
       cellparToCell cellpar None (Some [1, 0, 0]) radians"
  by (simp add: cellparToCell_def default_a_direction_3)





subsection \<open>The constructor\<close>

lemma all_ok_Inr: "all_ok rs = Inr xs \<longleftrightarrow> rs = map Inr xs"
proof (induction rs arbitrary: xs)
  case Nil
  show ?case by auto
next
  case (Cons r rs)
  show ?case
  proof (cases r)
    case (Inl e)
    then show ?thesis by (cases xs) auto
  next
    case (Inr x)
    show ?thesis
    proof (cases "all_ok rs")
      case (Inl e)
      with Cons.IH have "\<And>ys. rs \<noteq> map Inr ys" by auto
      with Inl Inr show ?thesis by (cases xs) auto
    next
      case r2: (Inr ys)
      have "rs = map Inr ys" using Cons.IH [of ys] r2 by simp
      with r2 Inr show ?thesis by (cases xs) auto
    qed
  qed
qed

lemma all_ok_Inl: "all_ok rs = Inl e \<Longrightarrow> Inl e \<in> set rs"
proof (induction rs)
  case Nil
  then show ?case by simp
next
  case (Cons r rs)
  then show ?case
    by (cases r; cases "all_ok rs") auto
qed

lemma all_ok_fails: "Inl e \<in> set rs \<Longrightarrow> \<exists>e'. all_ok rs = Inl e'"
proof (induction rs)
  case Nil
  then show ?case by simp
next
  case (Cons r rs)
  then show ?case
    by (cases r; cases "all_ok rs") auto
qed

lemma lookup_species_error:
  "lookup_species tbl tolerant el = Inl e \<Longrightarrow> e = NonExistingElement el"
  by (auto simp: lookup_species_def Let_def split: option.splits if_splits)

lemma species_fails:
  assumes "i < length elems" and "lookup_species tbl tolerant (elems ! i) = Inl e"
  shows "\<exists>el. species tbl tolerant elems = Inl (NonExistingElement el)"
proof -
  have "Inl e \<in> set (map (lookup_species tbl tolerant) elems)"
    using assms by (metis (no_types, lifting) length_map nth_map nth_mem)
  then obtain e' where e': "all_ok (map (lookup_species tbl tolerant) elems) = Inl e'"
    using all_ok_fails by blast
  then have "Inl e' \<in> set (map (lookup_species tbl tolerant) elems)"
    by (rule all_ok_Inl)
  then obtain el where "lookup_species tbl tolerant el = Inl e'" by auto
  then have "e' = NonExistingElement el" by (rule lookup_species_error)
  with e' show ?thesis by (auto simp: species_def)
qed

lemma Atoms_species_fails:
  "species tbl tolerant elems = Inl e \<Longrightarrow>
     Atoms tbl elems positions cell info scaled tolerant = Inl e"
  by (simp add: Atoms_def)

lemma species_Inr:
  "species tbl tolerant elems = Inr (syms, nums) \<longleftrightarrow>
     map (lookup_species tbl tolerant) elems = map Inr (zip syms nums) \<and> length syms = length nums"
proof
  assume "species tbl tolerant elems = Inr (syms, nums)"
  then obtain ps where ps: "all_ok (map (lookup_species tbl tolerant) elems) = Inr ps"
    and eq: "syms = map fst ps" "nums = map snd ps"
    by (auto simp: species_def and_then_eq_Inr)
  from eq have "zip syms nums = ps" by (simp add: zip_map_fst_snd)
  with ps eq show "map (lookup_species tbl tolerant) elems = map Inr (zip syms nums) \<and> length syms = length nums"
    by (simp add: all_ok_Inr)
next
  assume a: "map (lookup_species tbl tolerant) elems = map Inr (zip syms nums) \<and> length syms = length nums"
  then have "all_ok (map (lookup_species tbl tolerant) elems) = Inr (zip syms nums)"
    by (simp add: all_ok_Inr)
  with a show "species tbl tolerant elems = Inr (syms, nums)"
    by (simp add: species_def)
qed

lemma species_succeeds:
  assumes "\<forall>el \<in> set elems. \<exists>p. lookup_species tbl tolerant el = Inr p"
  shows "\<exists>syms nums. species tbl tolerant elems = Inr (syms, nums)
           \<and> length syms = length elems \<and> length nums = length elems
           \<and> (\<forall>i < length elems. lookup_species tbl tolerant (elems ! i) = Inr (syms ! i, nums ! i))"
proof -
  define ps where "ps = map (\<lambda>el. projr (lookup_species tbl tolerant el)) elems"
  have pr: "lookup_species tbl tolerant el = Inr (projr (lookup_species tbl tolerant el))"
    if "el \<in> set elems" for el
    using assms that by force
  have "map (lookup_species tbl tolerant) elems = map Inr ps"
    using pr by (simp add: ps_def)
  then have ok: "all_ok (map (lookup_species tbl tolerant) elems) = Inr ps"
    by (simp add: all_ok_Inr)
  have "\<forall>i < length elems. lookup_species tbl tolerant (elems ! i) = Inr (map fst ps ! i, map snd ps ! i)"
    using pr by (simp add: ps_def)
  with ok show ?thesis
    by (intro exI [of _ "map fst ps"] exI [of _ "map snd ps"]) (simp add: species_def ps_def)
qed

lemma multiply_mm_length: "mjs_multiply_mm ps m = Inr qs \<Longrightarrow> length qs = length ps"
  by (auto simp: mjs_multiply_mm_def all_ok_Inr split: if_splits dest: arg_cong [where f = length])

lemma absolute_positions_length:
  "absolute_positions scaled ic stored ps = Inr qs \<Longrightarrow> length qs = length ps"
  by (auto simp: absolute_positions_def multiply_mm_length split: if_splits option.splits)

lemma Atoms_Inr:
  "Atoms tbl elems positions cell info scaled tolerant = Inr m \<longleftrightarrow>
     (\<exists>syms nums stored pbc ic ps.
        species tbl tolerant elems = Inr (syms, nums)
        \<and> store_cell cell = Inr (stored, pbc)
        \<and> invert_cell cell stored = Inr ic
        \<and> length positions = length syms \<and> list_all (\<lambda>p. length p = 3) positions
        \<and> absolute_positions scaled ic stored positions = Inr ps
        \<and> m = \<lparr>at_arrays = [(''symbols'', Symbols syms), (''numbers'', Numbers nums),
                            (''positions'', Vectors ps)],
                at_N = length syms, at_pbc = pbc, at_cell = stored, at_inv_cell = ic,
                at_info = (case info of None \<Rightarrow> [] | Some i \<Rightarrow> i)\<rparr>)"
  (is "?L \<longleftrightarrow> ?R")
proof
  assume ?L
  then show ?R
    by (auto simp: Atoms_def and_then_eq_Inr set_array_def arr_length_def split: if_splits)
next
  assume ?R
  then obtain syms nums stored pbc ic ps where
    h: "species tbl tolerant elems = Inr (syms, nums)" "store_cell cell = Inr (stored, pbc)"
       "invert_cell cell stored = Inr ic" "length positions = length syms"
       "list_all (\<lambda>p. length p = 3) positions"
       "absolute_positions scaled ic stored positions = Inr ps"
    and m: "m = \<lparr>at_arrays = [(''symbols'', Symbols syms), (''numbers'', Numbers nums),
                            (''positions'', Vectors ps)],
                at_N = length syms, at_pbc = pbc, at_cell = stored, at_inv_cell = ic,
                at_info = (case info of None \<Rightarrow> [] | Some i \<Rightarrow> i)\<rparr>"
    by blast
  have "length ps = length syms"
    using absolute_positions_length [OF h(6)] h(4) by simp
  with h m show ?L
    by (simp add: Atoms_def set_array_def arr_length_def)
qed

lemma species_length:
  assumes "species tbl tolerant elems = Inr (syms, nums)"
  shows "length syms = length elems" and "length nums = length elems"
proof -
  from assms have m: "map (lookup_species tbl tolerant) elems = map Inr (zip syms nums)"
    and l: "length syms = length nums"
    by (simp_all add: species_Inr)
  from m have "length elems = length (zip syms nums)"
    by (metis length_map)
  with l show "length syms = length elems" and "length nums = length elems" by simp_all
qed

lemma lookup_tolerant:
  assumes "\<And>n. el = ENum n \<Longrightarrow> getAtomic tbl n \<noteq> None"
  shows "\<exists>p. lookup_species tbl True el = Inr p"
  using assms by (cases el) (auto simp: lookup_species_def split: option.splits)

text \<open>
  C7. An element symbol that the periodic table does not resolve makes the constructor
  raise \<open>Non-existing element\<close> when \<^verbatim>\<open>tolerant\<close> is false. When \<^verbatim>\<open>tolerant\<close> is true
  the symbol does not stand in the way: if every number among the elements resolves,
  and the constructor accepts the other arguments for some list of as many elements,
  then it returns a structure, whose number for the atom is \<open>-1\<close> and whose symbol is
  the string as it was given.
\<close>

theorem unknown_symbol:
  assumes i: "i < length elems" and el: "elems ! i = EStr s"
    and un: "getElement tbl (EStr s) = None"
  shows "(\<exists>e. Atoms tbl elems positions cell info scaled False = Inl (NonExistingElement e))
     \<and> ((\<forall>n. ENum n \<in> set elems \<longrightarrow> getAtomic tbl n \<noteq> None)
          \<and> length elems0 = length elems
          \<and> Atoms tbl elems0 positions cell info scaled tolerant0 = Inr m0
        \<longrightarrow> (\<exists>m syms nums. Atoms tbl elems positions cell info scaled True = Inr m
               \<and> get_array ''symbols'' m = Some (Symbols syms) \<and> syms ! i = EStr s
               \<and> get_array ''numbers'' m = Some (Numbers nums) \<and> nums ! i = - 1))"
proof (intro conjI impI)
  have "lookup_species tbl False (elems ! i) = Inl (NonExistingElement (EStr s))"
    using el un by (simp add: lookup_species_def)
  with i obtain e where "species tbl False elems = Inl (NonExistingElement e)"
    using species_fails by blast
  then show "\<exists>e. Atoms tbl elems positions cell info scaled False = Inl (NonExistingElement e)"
    using Atoms_species_fails by blast
next
  assume a: "(\<forall>n. ENum n \<in> set elems \<longrightarrow> getAtomic tbl n \<noteq> None)
          \<and> length elems0 = length elems
          \<and> Atoms tbl elems0 positions cell info scaled tolerant0 = Inr m0"
  have "\<exists>p. lookup_species tbl True el = Inr p" if "el \<in> set elems" for el
    using a that by (intro lookup_tolerant) blast
  then have "\<forall>el \<in> set elems. \<exists>p. lookup_species tbl True el = Inr p"
    by blast
  then obtain syms nums where sp: "species tbl True elems = Inr (syms, nums)"
    and len: "length syms = length elems"
    and at: "\<forall>i < length elems. lookup_species tbl True (elems ! i) = Inr (syms ! i, nums ! i)"
    using species_succeeds by blast
  have "lookup_species tbl True (elems ! i) = Inr (EStr s, - 1)"
    using el un by (simp add: lookup_species_def)
  with at i have vals: "syms ! i = EStr s" "nums ! i = - 1" by simp_all
  from a obtain syms0 nums0 stored pbc ic ps where
    h: "species tbl tolerant0 elems0 = Inr (syms0, nums0)" "store_cell cell = Inr (stored, pbc)"
       "invert_cell cell stored = Inr ic" "length positions = length syms0"
       "list_all (\<lambda>p. length p = 3) positions"
       "absolute_positions scaled ic stored positions = Inr ps"
    unfolding Atoms_Inr by blast
  have "length positions = length syms"
    using h(4) species_length(1) [OF h(1)] a len by simp
  with sp h obtain m where m: "Atoms tbl elems positions cell info scaled True = Inr m"
    and arrs: "at_arrays m = [(''symbols'', Symbols syms), (''numbers'', Numbers nums),
                            (''positions'', Vectors ps)]"
    unfolding Atoms_Inr by fastforce
  from arrs have "get_array ''symbols'' m = Some (Symbols syms)"
    "get_array ''numbers'' m = Some (Numbers nums)"
    by (simp_all add: get_array_def)
  with m vals show "\<exists>m syms nums. Atoms tbl elems positions cell info scaled True = Inr m
               \<and> get_array ''symbols'' m = Some (Symbols syms) \<and> syms ! i = EStr s
               \<and> get_array ''numbers'' m = Some (Numbers nums) \<and> nums ! i = - 1"
    by blast
qed

theorem unknown_symbol_witness:
  "(\<exists>e. Atoms carbon_table [EStr ''X''] [[0, 0, 0]] CellNull None False False
          = Inl (NonExistingElement e))
   \<and> (\<exists>m syms nums. Atoms carbon_table [EStr ''X''] [[0, 0, 0]] CellNull None False True = Inr m
         \<and> get_array ''symbols'' m = Some (Symbols syms) \<and> syms ! 0 = EStr ''X''
         \<and> get_array ''numbers'' m = Some (Numbers nums) \<and> nums ! 0 = - 1)"
proof -
  have "\<exists>m0. Atoms carbon_table [EStr ''C''] [[0, 0, 0]] CellNull None False False = Inr m0"
    by (simp add: Atoms_Inr species_def lookup_species_def carbon_table_def store_cell_def
        invert_cell_def absolute_positions_def)
  then obtain m0 where
    "Atoms carbon_table [EStr ''C''] [[0, 0, 0]] CellNull None False False = Inr m0" ..
  then show ?thesis
    using unknown_symbol [of 0 "[EStr ''X'']" "''X''" carbon_table "[[0, 0, 0]]" CellNull None
        False "[EStr ''C'']" False m0]
    by (simp add: carbon_table_def)
qed

text \<open>
  C10. An element given as a number that the periodic table does not resolve makes the
  constructor raise, tolerant or not: the turn of the loop for it raises, and never
  pushes the number \<open>-1\<close>.
\<close>

theorem unknown_number:
  assumes "i < length elems" and "elems ! i = ENum n" and "getAtomic tbl n = None"
  shows "lookup_species tbl tolerant (ENum n) = Inl (NonExistingElement (ENum n))
     \<and> (\<exists>e. Atoms tbl elems positions cell info scaled tolerant = Inl (NonExistingElement e))"
proof
  show l: "lookup_species tbl tolerant (ENum n) = Inl (NonExistingElement (ENum n))"
    using assms(3) by (simp add: lookup_species_def)
  with assms(1,2) obtain e where "species tbl tolerant elems = Inl (NonExistingElement e)"
    using species_fails by metis
  then show "\<exists>e. Atoms tbl elems positions cell info scaled tolerant = Inl (NonExistingElement e)"
    using Atoms_species_fails by blast
qed

theorem unknown_number_witness:
  "lookup_species carbon_table True (ENum 200) = Inl (NonExistingElement (ENum 200))
   \<and> (\<exists>e. Atoms carbon_table [EStr ''C'', ENum 200] [[0, 0, 0], [1, 1, 1]] CellNull None False True
           = Inl (NonExistingElement e))"
  using unknown_number [of 1 "[EStr ''C'', ENum 200]" 200 carbon_table True
      "[[0, 0, 0], [1, 1, 1]]" CellNull None False]
  by (simp add: carbon_table_def)

lemma multiply_vm_length: "mjs_multiply_vm p m = Inr q \<Longrightarrow> length q = 3"
  by (auto simp: mjs_multiply_vm_def split: list.splits)

lemma multiply_mm_rows:
  assumes "mjs_multiply_mm ps m = Inr qs"
  shows "list_all (\<lambda>q. length q = 3) qs"
proof -
  from assms have eq: "map (\<lambda>p. mjs_multiply_vm p m) ps = map Inr qs"
    by (auto simp: mjs_multiply_mm_def all_ok_Inr split: if_splits)
  have "length q = 3" if "q \<in> set qs" for q
  proof -
    from that have "Inr q \<in> set (map (\<lambda>p. mjs_multiply_vm p m) ps)"
      unfolding eq by simp
    then obtain p where "mjs_multiply_vm p m = Inr q" by auto
    then show ?thesis by (rule multiply_vm_length)
  qed
  then show ?thesis by (simp add: list_all_iff)
qed

lemma absolute_positions_rows:
  "absolute_positions scaled ic stored ps = Inr qs \<Longrightarrow> list_all (\<lambda>p. length p = 3) ps
     \<Longrightarrow> list_all (\<lambda>q. length q = 3) qs"
  by (auto simp: absolute_positions_def multiply_mm_rows split: if_splits option.splits)

lemma inv_shape:
  "mjs_inv m = Inr ic \<Longrightarrow> \<exists>a0 a1 a2 b0 b1 b2 c0 c1 c2. ic = [[a0, a1, a2], [b0, b1, b2], [c0, c1, c2]]"
  by (auto simp: mjs_inv_def split: list.splits if_splits)

lemma invert_cell_shape:
  "invert_cell cell stored = Inr (Some ic)
     \<Longrightarrow> \<exists>a0 a1 a2 b0 b1 b2 c0 c1 c2. ic = [[a0, a1, a2], [b0, b1, b2], [c0, c1, c2]]"
  by (auto simp: invert_cell_def and_then_eq_Inr split: option.splits if_splits dest: inv_shape)

lemma scaled_position_row_times:
  "length p = 3 \<Longrightarrow>
     scaled_position [[a0, a1, a2], [b0, b1, b2], [c0, c1, c2]] p
       = Inr (row_times_matrix p [[a0, a1, a2], [b0, b1, b2], [c0, c1, c2]])"
  by (simp add: scaled_position_def row_times_matrix_def upt_rec eval_nat_numeral lessThan_Suc)

lemma periodic_has_inverse:
  assumes "store_cell cell = Inr (stored, [True, True, True])"
    and "invert_cell cell stored = Inr ic"
  shows "ic \<noteq> None"
proof (cases cell)
  case CellNull
  with assms show ?thesis by (simp add: store_cell_def)
next
  case (CellNum a)
  with assms show ?thesis
    by (auto simp: store_cell_def invert_cell_def falsy_cell_def and_then_eq_Inr split: if_splits)
next
  case (CellRows rows)
  from assms(1) obtain rs where st: "stored = Some rs" and nn: "None \<notin> set rs"
    unfolding CellRows
    by (auto simp: store_cell_def and_then_eq_Inr split: if_splits list.splits cellrow.splits)
  with assms(2) CellRows show ?thesis
    by (auto simp: invert_cell_def falsy_cell_def and_then_eq_Inr)
qed

text \<open>
  C6. For every structure that the constructor returns with all three flags of
  \<^verbatim>\<open>_pbc\<close> true, the inverse cell is there and \<^verbatim>\<open>get_scaled_positions\<close> returns, for
  each stored position \<open>p\<close>, the product \<open>p \<cdot> inv_cell\<close> of the row vector with the
  matrix. For the cell \<open>[[1,1,0],[2,-2,0],[0,0,2]]\<close> and the position \<open>[0.5,0.5,1]\<close> the
  scaled position is \<open>[0.5,0,0.5]\<close> (the test of the repository).
\<close>

theorem scaled_positions:
  "(Atoms tbl elems positions cell info scaled tolerant = Inr m \<and> at_pbc m = [True, True, True]
      \<longrightarrow> (\<exists>ic ps. at_inv_cell m = Some ic \<and> get_array ''positions'' m = Some (Vectors ps)
            \<and> get_scaled_positions m = Inr (map (\<lambda>p. row_times_matrix p ic) ps)))
   \<and> (\<exists>m'. Atoms carbon_table [EStr ''C''] [[1 / 2, 1 / 2, 1]]
              (CellRows [RowVec [1, 1, 0], RowVec [2, - 2, 0], RowVec [0, 0, 2]]) None False False
            = Inr m'
          \<and> get_scaled_positions m' = Inr [[1 / 2, 0, 1 / 2]])"
proof (intro conjI impI)
  assume a: "Atoms tbl elems positions cell info scaled tolerant = Inr m \<and> at_pbc m = [True, True, True]"
  then obtain syms nums stored pbc ic0 ps where
    h: "store_cell cell = Inr (stored, pbc)" "invert_cell cell stored = Inr ic0"
       "list_all (\<lambda>p. length p = 3) positions"
       "absolute_positions scaled ic0 stored positions = Inr ps"
    and m: "m = \<lparr>at_arrays = [(''symbols'', Symbols syms), (''numbers'', Numbers nums),
                            (''positions'', Vectors ps)],
                at_N = length syms, at_pbc = pbc, at_cell = stored, at_inv_cell = ic0,
                at_info = (case info of None \<Rightarrow> [] | Some i \<Rightarrow> i)\<rparr>"
    unfolding Atoms_Inr by blast
  from a m have "pbc = [True, True, True]" by simp
  with h(1,2) have "ic0 \<noteq> None" using periodic_has_inverse by blast
  then obtain ic where ic: "ic0 = Some ic" by blast
  from h(2) have "invert_cell cell stored = Inr (Some ic)" unfolding ic .
  then obtain a0 a1 a2 b0 b1 b2 c0 c1 c2 where
    shape: "ic = [[a0, a1, a2], [b0, b1, b2], [c0, c1, c2]]"
    using invert_cell_shape by metis
  have rows: "list_all (\<lambda>p. length p = 3) ps"
    using h(3,4) by (rule absolute_positions_rows [rotated])
  then have "map (scaled_position ic) ps = map Inr (map (\<lambda>p. row_times_matrix p ic) ps)"
    unfolding shape by (simp add: list_all_iff scaled_position_row_times)
  then have "all_ok (map (scaled_position ic) ps) = Inr (map (\<lambda>p. row_times_matrix p ic) ps)"
    by (simp only: all_ok_Inr)
  then have "get_scaled_positions m = Inr (map (\<lambda>p. row_times_matrix p ic) ps)"
    by (cases ps) (simp_all add: get_scaled_positions_def get_array_def m ic arr_length_def)
  moreover have "get_array ''positions'' m = Some (Vectors ps)"
    by (simp add: get_array_def m)
  ultimately show "\<exists>ic ps. at_inv_cell m = Some ic \<and> get_array ''positions'' m = Some (Vectors ps)
            \<and> get_scaled_positions m = Inr (map (\<lambda>p. row_times_matrix p ic) ps)"
    using m ic by simp
next
  let ?cell = "CellRows [RowVec [1, 1, 0], RowVec [2, - 2, 0], RowVec [0, 0, 2]]"
  have sp: "species carbon_table False [EStr ''C''] = Inr ([EStr ''C''], [6])"
    by (simp add: species_def lookup_species_def carbon_table_def)
  have st: "store_cell ?cell = Inr (Some [Some [1, 1, 0], Some [2, - 2, 0], Some [0, 0, 2]], [True, True, True])"
    by (simp add: store_cell_def is_cellpar_def length_is_3_def cell_row_def)
  have iv: "invert_cell ?cell (Some [Some [1, 1, 0], Some [2, - 2, 0], Some [0, 0, 2]])
      = Inr (Some [[1 / 2, 1 / 4, 0], [1 / 2, - 1 / 4, 0], [0, 0, 1 / 2]])"
    by (simp add: invert_cell_def falsy_cell_def mjs_inv_def det3_def)
  show "\<exists>m'. Atoms carbon_table [EStr ''C''] [[1 / 2, 1 / 2, 1]] ?cell None False False = Inr m'
          \<and> get_scaled_positions m' = Inr [[1 / 2, 0, 1 / 2]]"
    using sp st iv
    by (auto simp: Atoms_Inr absolute_positions_def get_scaled_positions_def get_array_def
        arr_length_def scaled_position_def)
qed

theorem scaled_positions_witness:
  "\<exists>m ic ps.
     Atoms carbon_table [EStr ''C''] [[1 / 2, 1 / 2, 1]]
       (CellRows [RowVec [1, 1, 0], RowVec [2, - 2, 0], RowVec [0, 0, 2]]) None False False = Inr m
     \<and> at_pbc m = [True, True, True]
     \<and> at_inv_cell m = Some ic \<and> get_array ''positions'' m = Some (Vectors ps)
     \<and> get_scaled_positions m = Inr (map (\<lambda>p. row_times_matrix p ic) ps)"
proof -
  let ?cell = "CellRows [RowVec [1, 1, 0], RowVec [2, - 2, 0], RowVec [0, 0, 2]]"
  have sp: "species carbon_table False [EStr ''C''] = Inr ([EStr ''C''], [6])"
    by (simp add: species_def lookup_species_def carbon_table_def)
  have st: "store_cell ?cell = Inr (Some [Some [1, 1, 0], Some [2, - 2, 0], Some [0, 0, 2]], [True, True, True])"
    by (simp add: store_cell_def is_cellpar_def length_is_3_def cell_row_def)
  have iv: "invert_cell ?cell (Some [Some [1, 1, 0], Some [2, - 2, 0], Some [0, 0, 2]])
      = Inr (Some [[1 / 2, 1 / 4, 0], [1 / 2, - 1 / 4, 0], [0, 0, 1 / 2]])"
    by (simp add: invert_cell_def falsy_cell_def mjs_inv_def det3_def)
  obtain m where m: "Atoms carbon_table [EStr ''C''] [[1 / 2, 1 / 2, 1]] ?cell None False False = Inr m"
    and pbc: "at_pbc m = [True, True, True]"
    using sp st iv by (auto simp: Atoms_Inr absolute_positions_def)
  then show ?thesis
    using scaled_positions [of carbon_table "[EStr ''C'']" "[[1 / 2, 1 / 2, 1]]" ?cell None False False m]
    by blast
qed

subsection \<open>Reading blocks\<close>

lemma coordinates_numbers:
  "coordinates [Some (Num x), Some (Num y), Some (Num z)] = Inr [x, y, z]"
  by (simp add: coordinates_def as_number_def)

lemma site_position_cartesian:
  assumes "Cartn_x site = Some (Num x)" "Cartn_y site = Some (Num y)" "Cartn_z site = Some (Num z)"
  shows "site_position pbc cell site = Inr [x, y, z]"
  using assms by (simp add: site_position_def coordinates_numbers)



text \<open>A block for which \<^verbatim>\<open>_cellpars\<close> returns \<^verbatim>\<open>null\<close>: the variable \<^verbatim>\<open>cell\<close> keeps
  its value, the sites need Cartesian coordinates, no symmetry operation is looked for.\<close>

lemma read_block_no_cellpars:
  assumes "cellpars cblock = Inr None" and "atom_sites cblock = Some asites"
  shows "read_block tbl symm symtol cell0 cblock =
     and_then (all_ok (map (site_position False cell0) asites)) (\<lambda>positions.
     and_then (Atoms tbl (map (\<lambda>a. as_elem (type_symbol a)) asites) positions (as_cellarg cell0)
                 (Some []) False False) (\<lambda>a.
     and_then (set_array ''labels'' (Symbols (map (\<lambda>a. as_elem (label a)) asites)) a) (\<lambda>a'.
       Inr (a', cell0))))"
  using assms by (simp add: read_block_def)










lemma cellpars_numbers:
  assumes "map_of cblock ''_cell_length_a'' = Some (Single (Leaf ta (Num a)))"
    and "map_of cblock ''_cell_length_b'' = Some (Single (Leaf tb (Num b)))"
    and "map_of cblock ''_cell_length_c'' = Some (Single (Leaf tc (Num c)))"
    and "map_of cblock ''_cell_angle_alpha'' = Some (Single (Leaf tal (Num al)))"
    and "map_of cblock ''_cell_angle_beta'' = Some (Single (Leaf tbe (Num be)))"
    and "map_of cblock ''_cell_angle_gamma'' = Some (Single (Leaf tga (Num ga)))"
  shows "cellpars cblock =
     Inr (if a = 0 \<or> b = 0 \<or> c = 0 then None else Some ([a, b, c], [al, be, ga]))"
  using assms by (simp add: cellpars_def cell_tags_def as_number_def)






subsection \<open>The example blocks\<close>

lemma carbon_site:
  "atom_sites (carbon_at x y z @ cell_of a b c al be ga) =
     Some [\<lparr>label = Some (Text ''C1''), type_symbol = Some (Text ''C''),
            Cartn_x = Some (Num x), Cartn_y = Some (Num y), Cartn_z = Some (Num z),
            fract_x = None, fract_y = None, fract_z = None\<rparr>]"
  "atom_sites (carbon_at x y z) =
     Some [\<lparr>label = Some (Text ''C1''), type_symbol = Some (Text ''C''),
            Cartn_x = Some (Num x), Cartn_y = Some (Num y), Cartn_z = Some (Num z),
            fract_x = None, fract_y = None, fract_z = None\<rparr>]"
  by (simp_all add: atom_sites_def extract_tags_def asite_tags_def carbon_at_def cell_of_def
      number_tag_def like_first_def site_value_def)


lemma cellpars_cell_of:
  "cellpars (carbon_at x y z @ cell_of a b c al be ga) =
     Inr (if a = 0 \<or> b = 0 \<or> c = 0 then None else Some ([a, b, c], [al, be, ga]))"
  "cellpars (carbon_fract @ cell_of a b c al be ga) =
     Inr (if a = 0 \<or> b = 0 \<or> c = 0 then None else Some ([a, b, c], [al, be, ga]))"
  by (rule cellpars_numbers; simp add: carbon_at_def carbon_fract_def cell_of_def number_tag_def)+

lemma cellpars_no_cell:
  "cellpars (carbon_at x y z) = Inr None" "cellpars carbon_fract = Inr None"
  by (simp_all add: cellpars_def cell_tags_def carbon_at_def carbon_fract_def)

lemma unit_cube: "cellparToCell ([1, 1, 1], [90, 90, 90]) None None False
    = Inr [[1, 0, 0], [0, 1, 0], [0, 0, 1]]"
proof -
  have s: "snap (pi / 2) = (cos (pi / 2), sin (pi / 2))"
    by (intro snap_exact) simp_all
  have "cell_vectors [1, 1, 1] [pi / 2, pi / 2, pi / 2] = Inr [[1, 0, 0], [0, 1, 0], [0, 0, 1]]"
    using cell_vectors_exact [OF s s s, of 1 1 1] by simp
  then show ?thesis
    by (simp add: cellparToCell_default utils_degToRad_def multiply_identity)
qed

lemma carbon_species: "species carbon_table False [EStr ''C''] = Inr ([EStr ''C''], [6])"
  by (simp add: species_def lookup_species_def carbon_table_def)

lemma Atoms_unit_cube:
  "Atoms carbon_table [EStr ''C''] [[x, y, z]]
     (CellRows [RowVec [1, 0, 0], RowVec [0, 1, 0], RowVec [0, 0, 1]]) (Some []) False False =
   Inr \<lparr>at_arrays = [(''symbols'', Symbols [EStr ''C'']), (''numbers'', Numbers [6]),
                      (''positions'', Vectors [[x, y, z]])],
        at_N = 1, at_pbc = [True, True, True],
        at_cell = Some [Some [1, 0, 0], Some [0, 1, 0], Some [0, 0, 1]],
        at_inv_cell = Some [[1, 0, 0], [0, 1, 0], [0, 0, 1]], at_info = []\<rparr>"
  by (simp add: Atoms_Inr carbon_species store_cell_def is_cellpar_def cell_row_def
      invert_cell_def falsy_cell_def mjs_inv_def det3_def absolute_positions_def)

lemma Atoms_no_cell_carbon:
  "Atoms carbon_table [EStr ''C''] [[x, y, z]] CellNull (Some []) False False =
   Inr \<lparr>at_arrays = [(''symbols'', Symbols [EStr ''C'']), (''numbers'', Numbers [6]),
                      (''positions'', Vectors [[x, y, z]])],
        at_N = 1, at_pbc = [False, False, False], at_cell = None, at_inv_cell = None,
        at_info = []\<rparr>"
  by (simp add: Atoms_Inr carbon_species store_cell_def invert_cell_def absolute_positions_def)

lemma no_symops_carbon:
  "symops symm (carbon_at x y z @ cell_of a b c al be ga) = Inr None"
  by (simp add: symops_def first_present_def carbon_at_def cell_of_def number_tag_def)

lemma read_unit_cube:
  "read_block carbon_table symm symtol cell0 (carbon_at x y z @ cell_of 1 1 1 90 90 90)
     = Inr (carbon_structure x y z True, Some [[1, 0, 0], [0, 1, 0], [0, 0, 1]])"
  by (simp add: read_block_def carbon_site cellpars_cell_of unit_cube site_position_cartesian
      no_symops_carbon as_elem_def as_cellarg_def Atoms_unit_cube set_array_def arr_length_def
      carbon_structure_def)

lemma read_no_cell_first:
  "read_block carbon_table symm symtol None (carbon_at x y z)
     = Inr (carbon_structure x y z False, None)"
  by (simp add: read_block_no_cellpars [OF cellpars_no_cell(1) carbon_site(2)]
      site_position_cartesian as_elem_def as_cellarg_def Atoms_no_cell_carbon set_array_def
      arr_length_def carbon_structure_def)

lemma read_no_cell_after:
  "read_block carbon_table symm symtol (Some [[1, 0, 0], [0, 1, 0], [0, 0, 1]]) (carbon_at x y z)
     = Inr (carbon_structure x y z True, Some [[1, 0, 0], [0, 1, 0], [0, 0, 1]])"
  by (simp add: read_block_no_cellpars [OF cellpars_no_cell(1) carbon_site(2)]
      site_position_cartesian as_elem_def as_cellarg_def Atoms_unit_cube set_array_def
      arr_length_def carbon_structure_def)

lemma has_sites:
  "map_of (carbon_at x y z) ''_atom_site_label'' \<noteq> None"
  "map_of (carbon_at x y z @ more_tags) ''_atom_site_label'' \<noteq> None"
  "map_of carbon_fract ''_atom_site_label'' \<noteq> None"
  "map_of (carbon_fract @ more_tags) ''_atom_site_label'' \<noteq> None"
  by (simp_all add: carbon_at_def carbon_fract_def)

text \<open>
  C2. The structure of a block depends on the blocks read before it. Block \<open>B\<close> is one
  carbon atom at \<open>(5, 5, 5)\<close> with no cell tags. Read alone, its structure has no cell
  and no periodic direction. Read after block \<open>A\<close>, whose cell is the unit cube, it has
  the cell of \<open>A\<close> and is periodic in all three directions: \<^verbatim>\<open>var cell\<close> still holds the
  cell of \<open>A\<close> when the constructor is called for \<open>B\<close>.
\<close>

theorem stale_cell:
  "readCif carbon_table identity_symmetry
     [(''A'', carbon_at 0 0 0 @ cell_of 1 1 1 90 90 90), (''B'', carbon_at 5 5 5)] (1 / 1000)
     = Inr [(''A'', carbon_structure 0 0 0 True), (''B'', carbon_structure 5 5 5 True)]
   \<and> readCif carbon_table identity_symmetry [(''B'', carbon_at 5 5 5)] (1 / 1000)
     = Inr [(''B'', carbon_structure 5 5 5 False)]
   \<and> at_pbc (carbon_structure 5 5 5 True) = [True, True, True]
   \<and> at_pbc (carbon_structure 5 5 5 False) = [False, False, False]"
  by (simp add: readCif_def has_sites read_unit_cube read_no_cell_first read_no_cell_after
      carbon_structure_def)






subsection \<open>Symmetric copies\<close>















subsection \<open>Copies and references\<close>

lemma downward_iff:
  "downward h \<longleftrightarrow> (\<forall>a < length h. \<forall>v \<in> set (h ! a). in_store a v)"
  by (simp add: downward_def list_all_length nth_enumerate_eq all_set_conv_all_nth)

lemma in_store_mono: "in_store n v \<Longrightarrow> n \<le> m \<Longrightarrow> in_store m v"
  by (cases v) (simp_all add: in_store_def)

lemma same_below_nth: "same_below n h h' \<Longrightarrow> a < n \<Longrightarrow> h' ! a = h ! a"
  by (metis nth_take same_below_def)

lemma same_below_refl: "n \<le> length h \<Longrightarrow> same_below n h h"
  by (simp add: same_below_def)

lemma same_below_trans: "same_below n h h1 \<Longrightarrow> same_below n h1 h2 \<Longrightarrow> same_below n h h2"
  by (simp add: same_below_def)

lemma same_below_append: "n \<le> length h \<Longrightarrow> same_below n h (h @ ext)"
  by (simp add: same_below_def)

lemma same_below_less:
  assumes "same_below n h h'" and "m \<le> n"
  shows "same_below m h h'"
proof -
  from assms(1) have e: "take n h = take n h'"
    by (simp add: same_below_def)
  have "take m h = take m (take n h)"
    using assms(2) by (simp add: min_absorb1)
  also have "\<dots> = take m (take n h')"
    by (simp only: e)
  also have "\<dots> = take m h'"
    using assms(2) by (simp add: min_absorb1)
  finally show ?thesis
    using assms by (simp add: same_below_def)
qed

lemma those_map_defined:
  "(\<And>x. x \<in> set xs \<Longrightarrow> f x \<noteq> None) \<Longrightarrow> those (map f xs) \<noteq> None"
  by (induction xs) (auto split: option.splits)

lemma downward_same_below:
  assumes "downward h" and "same_below n h h'"
  shows "\<forall>a < n. \<forall>v \<in> set (h' ! a). in_store a v"
  using assms by (auto simp: downward_iff same_below_nth same_below_def)

text \<open>Reading a value that lies below \<open>n\<close> looks at the arrays below \<open>n\<close> only.\<close>

lemma read_tree_same_below:
  assumes dw: "\<forall>a < n. \<forall>v \<in> set (h ! a). in_store a v" and same: "same_below n h h'"
  shows "in_store n v \<Longrightarrow> read_tree h' k v = read_tree h k v"
proof (induction k arbitrary: v)
  case 0
  then show ?case by (cases v) simp_all
next
  case (Suc k)
  show ?case
  proof (cases v)
    case (JRef a)
    with Suc.prems have a: "a < n" by (simp add: in_store_def)
    then have eq: "h' ! a = h ! a" and len: "a < length h" "a < length h'"
      using same by (simp_all add: same_below_nth same_below_def)
    have "read_tree h' k w = read_tree h k w" if "w \<in> set (h ! a)" for w
    proof -
      from that dw a have "in_store a w" by simp
      with a have "in_store n w" by (intro in_store_mono [of a w n]) simp_all
      then show ?thesis by (rule Suc.IH)
    qed
    then have "map (read_tree h' k) (h ! a) = map (read_tree h k) (h ! a)"
      by simp
    then have "those (map (read_tree h' k) (h ! a)) = those (map (read_tree h k) (h ! a))"
      by (rule arg_cong)
    with JRef eq len show ?thesis by simp
  qed simp_all
qed

text \<open>In a downward store a value below \<open>k\<close> is read in full with \<open>k\<close> steps, and more
  steps read the same.\<close>

lemma read_tree_enough:
  assumes dw: "\<forall>a < n. \<forall>v \<in> set (h ! a). in_store a v" and n: "n \<le> length h"
  shows "in_store k v \<Longrightarrow> k \<le> n \<Longrightarrow> k \<le> m
           \<Longrightarrow> read_tree h m v = read_tree h k v \<and> read_tree h k v \<noteq> None"
proof (induction k arbitrary: v m)
  case 0
  then show ?case by (cases v) (simp_all add: in_store_def)
next
  case (Suc k)
  show ?case
  proof (cases v)
    case (JRef a)
    with Suc.prems have a: "a < Suc k" "a < n" by (simp_all add: in_store_def)
    from Suc.prems obtain m' where m: "m = Suc m'" "k \<le> m'" by (cases m) auto
    have step: "read_tree h m' w = read_tree h k w \<and> read_tree h k w \<noteq> None"
      if "w \<in> set (h ! a)" for w
    proof -
      from that dw a have "in_store a w" by simp
      with a have "in_store k w" by (intro in_store_mono [of a w k]) simp_all
      then show ?thesis using Suc.prems m by (intro Suc.IH) simp_all
    qed
    then have "map (read_tree h m') (h ! a) = map (read_tree h k) (h ! a)"
      by simp
    then have eq: "those (map (read_tree h m') (h ! a)) = those (map (read_tree h k) (h ! a))"
      by (rule arg_cong)
    have "those (map (read_tree h k) (h ! a)) \<noteq> None"
      using step by (intro those_map_defined) simp
    with JRef eq m a n show ?thesis by auto
  qed simp_all
qed

lemma those_map_Some: "those (map Some xs) = Some xs"
  by (induction xs) simp_all

text \<open>Writing a tree appends to the store.\<close>

lemma write_tree_appends:
  "write_tree t h = (v, h') \<Longrightarrow> \<exists>ext. h' = h @ ext"
  "write_trees ts h = (vs, h') \<Longrightarrow> \<exists>ext. h' = h @ ext"
proof (induction t h and ts h arbitrary: v h' and vs h' rule: write_tree_write_trees.induct)
  case (6 ts h)
  then show ?case by (auto split: prod.splits)
next
  case (8 t ts h)
  then show ?case by (fastforce split: prod.splits)
qed auto

lemma write_tree_same_below:
  assumes "write_tree t h = (v, h')"
  shows "same_below (length h) h h'"
  using write_tree_appends(1) [OF assms] by (auto simp: same_below_append)

text \<open>What was written is read back, whatever is done to the store above it.\<close>

lemma write_tree_read:
  "write_tree t h = (v, h') \<Longrightarrow> same_below (length h') h' h'' \<Longrightarrow> length h' \<le> k
     \<Longrightarrow> read_tree h'' k v = Some t"
  "write_trees ts h = (vs, h') \<Longrightarrow> same_below (length h') h' h'' \<Longrightarrow> length h' \<le> k
     \<Longrightarrow> map (read_tree h'' k) vs = map Some ts"
proof (induction t h and ts h arbitrary: v h' k and vs h' k rule: write_tree_write_trees.induct)
  case (6 ts h)
  from "6.prems"(1) obtain vs h1 where w: "write_trees ts h = (vs, h1)"
    and v: "v = JRef (length h1)" and h': "h' = h1 @ [vs]"
    by (auto split: prod.splits)
  from "6.prems"(3) h' obtain k' where k: "k = Suc k'" "length h1 \<le> k'"
    by (cases k) auto
  have s1: "same_below (length h1) h1 h''"
  proof -
    have "same_below (length h1) h1 h'" unfolding h' by (simp add: same_below_append)
    moreover have "same_below (length h1) h' h''"
      by (rule same_below_less [OF "6.prems"(2)]) (simp add: h')
    ultimately show ?thesis by (rule same_below_trans)
  qed
  have "map (read_tree h'' k') vs = map Some ts"
    using w s1 k(2) by (rule "6.IH")
  then have th: "those (map (read_tree h'' k') vs) = Some ts"
    by (simp only: those_map_Some)
  have "h'' ! length h1 = h' ! length h1"
    by (rule same_below_nth [OF "6.prems"(2)]) (simp add: h')
  then have at: "h'' ! length h1 = vs" "length h1 < length h''"
    using "6.prems"(2) by (simp_all add: h' same_below_def)
  show ?case by (simp add: v k at th)
next
  case (8 t ts h)
  from "8.prems"(1) obtain v1 h1 vs1 where w1: "write_tree t h = (v1, h1)"
    and w2: "write_trees ts h1 = (vs1, h')" and vs: "vs = v1 # vs1"
    by (auto split: prod.splits)
  from write_tree_appends(2) [OF w2] obtain ext where ext: "h' = h1 @ ext" by blast
  have s1: "same_below (length h1) h1 h''"
  proof -
    have "same_below (length h1) h1 h'" unfolding ext by (simp add: same_below_append)
    moreover have "same_below (length h1) h' h''"
      by (rule same_below_less [OF "8.prems"(2)]) (simp add: ext)
    ultimately show ?thesis by (rule same_below_trans)
  qed
  have "length h1 \<le> k"
    using "8.prems"(3) ext by simp
  with w1 s1 have "read_tree h'' k v1 = Some t"
    by (rule "8.IH"(1))
  moreover have "map (read_tree h'' k) vs1 = map Some ts"
    using w1 w2 "8.prems"(2,3) by (intro "8.IH"(2)) simp_all
  ultimately show ?case by (simp add: vs)
qed auto

lemma write_tree_above:
  "write_tree t h = (v, h') \<Longrightarrow> n \<le> length h
     \<Longrightarrow> above_ref n v \<and> (\<exists>ext. h' = h @ ext \<and> list_all (list_all (above_ref n)) ext)"
  "write_trees ts h = (vs, h') \<Longrightarrow> n \<le> length h
     \<Longrightarrow> list_all (above_ref n) vs
         \<and> (\<exists>ext. h' = h @ ext \<and> list_all (list_all (above_ref n)) ext)"
proof (induction t h and ts h arbitrary: v h' and vs h' rule: write_tree_write_trees.induct)
  case (6 ts h)
  from "6.prems"(1) obtain vs h1 where w: "write_trees ts h = (vs, h1)"
    and v: "v = JRef (length h1)" and h': "h' = h1 @ [vs]"
    by (auto split: prod.splits)
  from "6.IH" [OF w "6.prems"(2)] obtain ext where
    e: "list_all (above_ref n) vs" "h1 = h @ ext" "list_all (list_all (above_ref n)) ext"
    by blast
  have "above_ref n v" using "6.prems"(2) e(2) by (simp add: v above_ref_def)
  moreover have "h' = h @ (ext @ [vs])" by (simp add: h' e(2))
  moreover have "list_all (list_all (above_ref n)) (ext @ [vs])" using e by simp
  ultimately show ?case by blast
next
  case (8 t ts h)
  from "8.prems"(1) obtain v1 h1 vs1 where w1: "write_tree t h = (v1, h1)"
    and w2: "write_trees ts h1 = (vs1, h')" and vs: "vs = v1 # vs1"
    by (auto split: prod.splits)
  from "8.IH"(1) [OF w1 "8.prems"(2)] obtain e1 where
    a: "above_ref n v1" "h1 = h @ e1" "list_all (list_all (above_ref n)) e1"
    by blast
  have n1: "n \<le> length h1" using "8.prems"(2) a(2) by simp
  have "list_all (above_ref n) vs1
         \<and> (\<exists>ext. h' = h1 @ ext \<and> list_all (list_all (above_ref n)) ext)"
    using w1 w2 n1 by (intro "8.IH"(2)) simp_all
  then obtain e2 where
    b: "list_all (above_ref n) vs1" "h' = h1 @ e2" "list_all (list_all (above_ref n)) e2"
    by blast
  have "h' = h @ (e1 @ e2)" by (simp add: a(2) b(2))
  moreover have "list_all (list_all (above_ref n)) (e1 @ e2)" using a b by simp
  ultimately show ?case using a(1) b(1) vs by auto
qed (auto simp: above_ref_def)

lemma write_tree_own:
  assumes "write_tree t h = (v, h')"
  shows "own_arrays (length h) h' v"
  using write_tree_above(1) [OF assms, of "length h"] by (auto simp: own_arrays_def)

lemma mutate_same_below:
  "above n m \<Longrightarrow> n \<le> length h \<Longrightarrow> same_below n h (mutate h m)"
  by (cases m) (auto simp: same_below_def)

lemma mutations_same_below:
  "list_all (above n) ms \<Longrightarrow> n \<le> length h \<Longrightarrow> same_below n h (foldl mutate h ms)"
proof (induction ms arbitrary: h)
  case Nil
  then show ?case by (simp add: same_below_refl)
next
  case (Cons m ms)
  then have 1: "same_below n h (mutate h m)"
    by (simp add: mutate_same_below)
  then have "n \<le> length (mutate h m)" by (simp add: same_below_def)
  with Cons have "same_below n (mutate h m) (foldl mutate (mutate h m) ms)"
    by simp
  with 1 show ?case by (simp add: same_below_trans)
qed

text \<open>What is seen of a value of the structure depends on the arrays below \<open>length h\<close>
  only, whether it is handed out as it is or cloned.\<close>

lemma read_internal:
  assumes dw: "downward h" and same: "same_below (length h) h h2" and v: "in_store (length h) v"
  shows "\<exists>t. read_tree h (length h) v = Some t \<and> read_tree h2 (length h2) v = Some t"
proof -
  let ?n = "length h"
  have dw1: "\<forall>a < ?n. \<forall>w \<in> set (h ! a). in_store a w"
    using dw by (simp add: downward_iff)
  have dw2: "\<forall>a < ?n. \<forall>w \<in> set (h2 ! a). in_store a w"
    using dw same by (rule downward_same_below)
  have n2: "?n \<le> length h2" using same by (simp add: same_below_def)
  from read_tree_enough [OF dw1 _ v, of ?n] obtain t where t: "read_tree h ?n v = Some t"
    by auto
  have "read_tree h2 (length h2) v = read_tree h2 ?n v"
    using read_tree_enough [OF dw2 n2 v _ n2] by simp
  also have "\<dots> = read_tree h ?n v"
    using dw1 same v by (rule read_tree_same_below)
  finally show ?thesis using t by simp
qed

lemma seen_reference:
  assumes "downward h" and "same_below (length h) h h2" and "in_store (length h) v"
  shows "seen (Inr (v, h2)) = seen (Inr (v, h))"
  using read_internal [OF assms] by (auto simp: seen_def)

lemma seen_clone_value:
  assumes "read_tree h (length h) v = Some t"
  shows "seen (utils_deepClone v h) = Inr t"
proof -
  obtain r h' where w: "write_tree t h = (r, h')" by (cases "write_tree t h")
  have "read_tree h' (length h') r = Some t"
    using w by (rule write_tree_read(1)) (simp_all add: same_below_refl)
  with assms w show ?thesis by (simp add: utils_deepClone_def seen_def)
qed

lemma seen_clone:
  assumes "downward h" and "same_below (length h) h h2" and "in_store (length h) v"
  shows "seen (utils_deepClone v h2) = seen (utils_deepClone v h)"
  using read_internal [OF assms] by (auto simp: seen_clone_value)

lemma clone_defined:
  assumes "downward h" and "in_store (length h) v"
  shows "\<exists>t. utils_deepClone v h = Inr (write_tree t h)"
  using read_internal [OF assms(1) same_below_refl assms(2)] by (auto simp: utils_deepClone_def)

lemma clone_result:
  assumes "utils_deepClone v h = Inr (r, h1)"
  shows "own_arrays (length h) h1 r \<and> same_below (length h) h h1"
  using assms
  by (auto simp: utils_deepClone_def write_tree_own write_tree_same_below split: option.splits)

lemma array_ref_in_store:
  "well_stored obj h \<Longrightarrow> in_store (length h) (array_ref name obj)"
proof -
  assume "well_stored obj h"
  then have all: "\<forall>(k, v) \<in> set (ref_arrays obj). in_store (length h) v"
    by (simp add: well_stored_def list_all_iff)
  show ?thesis
  proof (cases "map_of (ref_arrays obj) name")
    case None
    then show ?thesis by (simp add: array_ref_def in_store_def)
  next
    case (Some v)
    then have "(name, v) \<in> set (ref_arrays obj)" by (rule map_of_SomeD)
    with all Some show ?thesis by (auto simp: array_ref_def)
  qed
qed

lemma query_same:
  assumes ws: "well_stored obj h" and same: "same_below (length h) h h2"
  shows "seen (run_query q obj h2) = seen (run_query q obj h)"
proof -
  from ws have dw: "downward h" and f: "in_store (length h) (ref_cell obj)"
    "in_store (length h) (ref_inv_cell obj)" "in_store (length h) (ref_pbc obj)"
    by (simp_all add: well_stored_def)
  note a = array_ref_in_store [OF ws]
  show ?thesis
    by (cases q) (simp_all add: seen_reference [OF dw same] seen_clone [OF dw same] a f)
qed

lemma query_defined:
  assumes ws: "well_stored obj h"
  shows "\<exists>r h1. run_query q obj h = Inr (r, h1)"
proof -
  from ws have dw: "downward h" and f: "in_store (length h) (ref_cell obj)"
    "in_store (length h) (ref_inv_cell obj)" "in_store (length h) (ref_pbc obj)"
    by (simp_all add: well_stored_def)
  note a = array_ref_in_store [OF ws]
  have c: "\<exists>r h1. utils_deepClone v h = Inr (r, h1)" if "in_store (length h) v" for v
    using clone_defined [OF dw that] by (metis surj_pair)
  show ?thesis
    by (cases q) (simp_all add: c a f)
qed

text \<open>
  C3, amended. For a structure whose arrays lie in a store where no array holds itself,
  each of \<^verbatim>\<open>get_chemical_symbols\<close>, \<^verbatim>\<open>get_atomic_numbers\<close>, \<^verbatim>\<open>get_cell\<close>,
  \<^verbatim>\<open>get_inv_cell\<close>, \<^verbatim>\<open>get_pbc\<close> and \<^verbatim>\<open>get_positions\<close> returns, and returns an
  independent copy: the arrays of the returned value are new ones, above all the arrays
  there were; and after any sequence of mutations of arrays above those, every query
  (\<^verbatim>\<open>get_array\<close> included) shows what it showed before.
\<close>

theorem accessors_copy:
  "(well_stored obj h \<and> clones q \<longrightarrow> (\<exists>r h1. run_query q obj h = Inr (r, h1)))
   \<and> (well_stored obj h \<and> clones q \<and> run_query q obj h = Inr (r, h1)
        \<and> list_all (above (length h)) ms
      \<longrightarrow> own_arrays (length h) h1 r
          \<and> (\<forall>q'. seen (run_query q' obj (foldl mutate h1 ms)) = seen (run_query q' obj h)))"
proof -
  have defined: "\<exists>r h1. run_query q obj h = Inr (r, h1)" if "well_stored obj h \<and> clones q"
    using that query_defined by blast
  have frame: "own_arrays (length h) h1 r
          \<and> (\<forall>q'. seen (run_query q' obj (foldl mutate h1 ms)) = seen (run_query q' obj h))"
    if a: "well_stored obj h \<and> clones q \<and> run_query q obj h = Inr (r, h1)
        \<and> list_all (above (length h)) ms"
  proof -
    from a have "\<exists>v. utils_deepClone v h = Inr (r, h1)"
      by (cases q) auto
    then have res: "own_arrays (length h) h1 r" "same_below (length h) h h1"
      using clone_result by blast+
    then have "length h \<le> length h1" by (simp add: same_below_def)
    with a have "same_below (length h) h1 (foldl mutate h1 ms)"
      by (intro mutations_same_below) simp_all
    with res(2) have "same_below (length h) h (foldl mutate h1 ms)"
      by (rule same_below_trans)
    with a res(1) show ?thesis
      by (simp add: query_same)
  qed
  from defined frame show ?thesis by blast
qed

lemma carbon_well_stored: "well_stored carbon_ref carbon_store"
  by (simp add: well_stored_def downward_def carbon_ref_def carbon_store_def in_store_def)

lemma carbon_positions:
  "read_tree carbon_store (length carbon_store) (JRef 3)
     = Some (TArr [TArr [TNum 0, TNum 0, TNum 0]])"
  by (simp add: carbon_store_def)

text \<open>
  C3. \<^verbatim>\<open>get_array\<close> returns the stored array and not a copy. On the structure of one
  carbon atom at the origin, \<^verbatim>\<open>get_array('positions')\<close> returns array 3 of the store,
  which holds array 2; after \<^verbatim>\<open>a.get_array('positions')[0][0] = 7\<close>, a write to array
  2, \<^verbatim>\<open>get_positions\<close> shows the atom at \<open>(7, 0, 0)\<close>.
\<close>

theorem get_array_counterexample:
  "well_stored carbon_ref carbon_store
   \<and> run_query (Get_array ''positions'') carbon_ref carbon_store = Inr (JRef 3, carbon_store)
   \<and> carbon_store ! 3 = [JRef 2]
   \<and> seen (run_query Get_positions carbon_ref carbon_store)
       = Inr (TArr [TArr [TNum 0, TNum 0, TNum 0]])
   \<and> seen (run_query Get_positions carbon_ref
              (mutate carbon_store (Write 2 [JNum 7, JNum 0, JNum 0])))
       = Inr (TArr [TArr [TNum 7, TNum 0, TNum 0]])"
proof -
  have r: "array_ref ''positions'' carbon_ref = JRef 3"
    by (simp add: array_ref_def carbon_ref_def)
  have "read_tree (mutate carbon_store (Write 2 [JNum 7, JNum 0, JNum 0]))
          (length (mutate carbon_store (Write 2 [JNum 7, JNum 0, JNum 0]))) (JRef 3)
        = Some (TArr [TArr [TNum 7, TNum 0, TNum 0]])"
    by (simp add: carbon_store_def)
  then have "seen (run_query Get_positions carbon_ref
              (mutate carbon_store (Write 2 [JNum 7, JNum 0, JNum 0])))
       = Inr (TArr [TArr [TNum 7, TNum 0, TNum 0]])"
    unfolding run_query.simps r by (rule seen_clone_value)
  moreover have "seen (run_query Get_positions carbon_ref carbon_store)
       = Inr (TArr [TArr [TNum 0, TNum 0, TNum 0]])"
    unfolding run_query.simps r using carbon_positions by (rule seen_clone_value)
  moreover have "carbon_store ! 3 = [JRef 2]"
    by (simp add: carbon_store_def)
  ultimately show ?thesis
    using carbon_well_stored r by simp
qed

theorem accessors_copy_witness:
  "run_query Get_positions carbon_ref carbon_store
     = Inr (JRef 6, carbon_store @ [[JNum 0, JNum 0, JNum 0], [JRef 5]])
   \<and> own_arrays 5 (carbon_store @ [[JNum 0, JNum 0, JNum 0], [JRef 5]]) (JRef 6)
   \<and> seen (run_query Get_positions carbon_ref
              (foldl mutate (carbon_store @ [[JNum 0, JNum 0, JNum 0], [JRef 5]])
                 [Write 5 [JNum 7, JNum 0, JNum 0], Write 6 [JNull], New [JRef 3]]))
       = Inr (TArr [TArr [TNum 0, TNum 0, TNum 0]])"
proof -
  let ?h1 = "carbon_store @ [[JNum 0, JNum 0, JNum 0], [JRef 5]]"
  let ?ms = "[Write 5 [JNum 7, JNum 0, JNum 0], Write 6 [JNull], New [JRef 3]]"
  have r: "array_ref ''positions'' carbon_ref = JRef 3"
    by (simp add: array_ref_def carbon_ref_def)
  have len: "length carbon_store = 5"
    by (simp add: carbon_store_def)
  have q: "run_query Get_positions carbon_ref carbon_store = Inr (JRef 6, ?h1)"
    by (simp add: r utils_deepClone_def carbon_positions) (simp add: carbon_store_def)
  have before: "seen (run_query Get_positions carbon_ref carbon_store)
       = Inr (TArr [TArr [TNum 0, TNum 0, TNum 0]])"
    unfolding run_query.simps r using carbon_positions by (rule seen_clone_value)
  have both: "own_arrays (length carbon_store) ?h1 (JRef 6)
          \<and> (\<forall>q'. seen (run_query q' carbon_ref (foldl mutate ?h1 ?ms))
                 = seen (run_query q' carbon_ref carbon_store))"
    using accessors_copy [of carbon_ref carbon_store Get_positions "JRef 6" ?h1 ?ms]
      carbon_well_stored q
    by (simp add: len)
  then have own: "own_arrays 5 ?h1 (JRef 6)"
    by (simp add: len)
  from both have "seen (run_query Get_positions carbon_ref (foldl mutate ?h1 ?ms))
      = seen (run_query Get_positions carbon_ref carbon_store)"
    by blast
  then have after: "seen (run_query Get_positions carbon_ref (foldl mutate ?h1 ?ms))
      = Inr (TArr [TArr [TNum 0, TNum 0, TNum 0]])"
    by (simp only: before)
  from q own after show ?thesis
    by (intro conjI)
qed

end
